theory Spec2Isabelle
  imports Main "HOL-Library.Sublist"
begin

section \<open>tools/parse-reports.py: Gradle reports as GitHub annotations\<close>

text \<open>
  The script reads JUnit and Checkstyle XML reports and prints annotation lines. This
  theory embeds its functions: text is a \<^typ>\<open>string\<close>, whose characters stand for the
  code points below 256 of a Python \<open>str\<close>; an \<open>Optional[str]\<close> is a
  \<^typ>\<open>string option\<close>; a raised exception is a value of \<open>pyerror\<close>; the file system
  and the XML parser are an environment the functions read.
\<close>

subsection \<open>Exceptions\<close>

datatype pyerror =
    TypeError            \<comment> \<open>a regular expression applied to \<open>None\<close>\<close>
  | KeyError string      \<comment> \<open>\<open>attrib[key]\<close> on a missing key\<close>
  | ValueError           \<comment> \<open>\<open>os.path.relpath\<close> of an empty path\<close>
  | ParseError           \<comment> \<open>\<open>ET.parse\<close> on malformed XML\<close>
  | OSError              \<comment> \<open>\<open>ET.parse\<close> on a path that cannot be read\<close>

subsection \<open>Regular expressions\<close>

text \<open>
  Python's \<open>re\<close> is a backtracking matcher. The patterns of the script use literal
  characters, \<open>.\<close>, character classes, greedy \<open>+\<close> and \<open>*\<close> over one character,
  \<open>^\<close>, \<open>$\<close> and unnested groups; the matcher below covers that fragment, with the flags
  \<open>re.MULTILINE\<close> and \<open>re.DOTALL\<close> folded into the nodes they change.
\<close>

definition newline :: char where
  "newline = CHR 0x0A"

definition is_space :: "char \<Rightarrow> bool" where
  \<comment> \<open>\<open>\s\<close> on \<open>str\<close>: \<open>str.isspace\<close>, on the code points below 256\<close>
  "is_space c = (let n = (of_char c :: nat) in
     (9 \<le> n \<and> n \<le> 13) \<or> (28 \<le> n \<and> n \<le> 32) \<or> n = 133 \<or> n = 160)"

definition is_digit :: "char \<Rightarrow> bool" where
  \<comment> \<open>\<open>\d\<close> on \<open>str\<close>: the decimal digits, on the code points below 256\<close>
  "is_digit c = (let n = (of_char c :: nat) in 48 \<le> n \<and> n \<le> 57)"

definition is_word :: "char \<Rightarrow> bool" where
  \<comment> \<open>\<open>\w\<close> on \<open>str\<close>: \<open>str.isalnum\<close> or the underscore, on the code points below 256\<close>
  "is_word c = (let n = (of_char c :: nat) in
     (48 \<le> n \<and> n \<le> 57) \<or> (65 \<le> n \<and> n \<le> 90) \<or> n = 95 \<or> (97 \<le> n \<and> n \<le> 122) \<or>
     n = 170 \<or> n = 178 \<or> n = 179 \<or> n = 181 \<or> n = 185 \<or> n = 186 \<or>
     (188 \<le> n \<and> n \<le> 190) \<or> (192 \<le> n \<and> n \<le> 214) \<or> (216 \<le> n \<and> n \<le> 246) \<or>
     (248 \<le> n \<and> n \<le> 255))"

datatype atom =
    Lit char                 \<comment> \<open>a literal character\<close>
  | Dot                      \<comment> \<open>\<open>.\<close>: any character but a newline\<close>
  | DotAll                   \<comment> \<open>\<open>.\<close> under \<open>re.DOTALL\<close>: any character\<close>
  | Cls "char \<Rightarrow> bool"        \<comment> \<open>\<open>\s\<close>, \<open>\w\<close>, \<open>\d\<close> or a bracketed set\<close>

fun atom_ok :: "atom \<Rightarrow> char \<Rightarrow> bool" where
  "atom_ok (Lit a) c = (c = a)"
| "atom_ok Dot c = (c \<noteq> newline)"
| "atom_ok DotAll c = True"
| "atom_ok (Cls P) c = P c"

datatype node =
    One atom                 \<comment> \<open>one character\<close>
  | Star atom                \<comment> \<open>\<open>x*\<close>, greedy\<close>
  | Plus atom                \<comment> \<open>\<open>x+\<close>, greedy\<close>
  | Bol                      \<comment> \<open>\<open>^\<close>: the start of the string\<close>
  | BolM                     \<comment> \<open>\<open>^\<close> under \<open>re.MULTILINE\<close>: the start of a line\<close>
  | EolM                     \<comment> \<open>\<open>$\<close> under \<open>re.MULTILINE\<close>: the end of a line\<close>
  | Eos                      \<comment> \<open>\<open>\Z\<close>: the end of the string\<close>
  | Group "node list"        \<comment> \<open>\<open>(...)\<close>, a capturing group\<close>

type_synonym regex = "node list"

text \<open>
  A position in the subject: the character before it (\<open>None\<close> at the start of the
  string), the text from it on, and the groups closed so far, in the order they closed.
  No group of the script's patterns is nested, so that order is the group number.
\<close>

type_synonym mstate = "char option \<times> string \<times> string list"

text \<open>
  Greedy repetition: take one more character while the atom allows it, and give a
  character back each time the rest of the pattern (the continuation) fails.
\<close>

fun star :: "atom \<Rightarrow> (mstate \<Rightarrow> 'r option) \<Rightarrow> char option \<Rightarrow> string \<Rightarrow> string list \<Rightarrow> 'r option" where
  "star a k p [] gs = k (p, [], gs)"
| "star a k p (c # cs) gs =
     (if atom_ok a c
      then (case star a k (Some c) cs gs of
              Some r \<Rightarrow> Some r
            | None \<Rightarrow> k (p, c # cs, gs))
      else k (p, c # cs, gs))"

fun m_node :: "node \<Rightarrow> mstate \<Rightarrow> (mstate \<Rightarrow> 'r option) \<Rightarrow> 'r option"
  and m_seq :: "node list \<Rightarrow> mstate \<Rightarrow> (mstate \<Rightarrow> 'r option) \<Rightarrow> 'r option" where
  "m_node (One a) (p, s, gs) k =
     (case s of [] \<Rightarrow> None | c # cs \<Rightarrow> if atom_ok a c then k (Some c, cs, gs) else None)"
| "m_node (Star a) (p, s, gs) k = star a k p s gs"
| "m_node (Plus a) (p, s, gs) k =
     (case s of [] \<Rightarrow> None | c # cs \<Rightarrow> if atom_ok a c then star a k (Some c) cs gs else None)"
| "m_node Bol (p, s, gs) k = (if p = None then k (p, s, gs) else None)"
| "m_node BolM (p, s, gs) k = (if p = None \<or> p = Some newline then k (p, s, gs) else None)"
| "m_node EolM (p, s, gs) k =
     (case s of [] \<Rightarrow> k (p, s, gs) | c # cs \<Rightarrow> if c = newline then k (p, s, gs) else None)"
| "m_node Eos (p, s, gs) k = (if s = [] then k (p, s, gs) else None)"
| "m_node (Group ns) (p, s, gs) k =
     m_seq ns (p, s, gs) (\<lambda>(p', s', gs'). k (p', s', gs' @ [take (length s - length s') s]))"
| "m_seq [] st k = k st"
| "m_seq (n # ns) st k = m_node n st (\<lambda>st'. m_seq ns st' k)"

definition match_at :: "regex \<Rightarrow> char option \<Rightarrow> string \<Rightarrow> mstate option" where
  \<comment> \<open>a match that starts at this position: where it ends, and its groups\<close>
  "match_at re p s = m_seq re (p, s, []) Some"

fun search_from :: "regex \<Rightarrow> char option \<Rightarrow> string \<Rightarrow> mstate option" where
  \<comment> \<open>the leftmost match at or after this position\<close>
  "search_from re p [] = match_at re p []"
| "search_from re p (c # cs) =
     (case match_at re p (c # cs) of
        Some m \<Rightarrow> Some m
      | None \<Rightarrow> search_from re (Some c) cs)"

definition group :: "mstate \<Rightarrow> nat \<Rightarrow> string" where
  \<comment> \<open>\<open>m[n]\<close>, and \<open>t[n - 1]\<close> for a tuple \<open>t\<close> of \<open>findall\<close>. Python raises
      \<open>IndexError\<close> for a group the pattern does not have; the script asks each pattern
      only for groups it has, so the last branch is never taken\<close>
  "group m n = (case m of (p, s, gs) \<Rightarrow> if 1 \<le> n \<and> n \<le> length gs then gs ! (n - 1) else [])"

definition re_search :: "regex \<Rightarrow> string \<Rightarrow> mstate option" where
  \<comment> \<open>\<open>pattern.search(string)\<close>\<close>
  "re_search re s = search_from re None s"

definition re_match :: "regex \<Rightarrow> string \<Rightarrow> mstate option" where
  \<comment> \<open>\<open>pattern.match(string)\<close>: a match at the start of the string only\<close>
  "re_match re s = match_at re None s"

definition lits :: "string \<Rightarrow> regex" where
  \<comment> \<open>a run of literal characters\<close>
  "lits s = map (\<lambda>c. One (Lit c)) s"

definition path_char :: "char \<Rightarrow> bool" where
  \<comment> \<open>\<open>[\w./-]\<close>\<close>
  "path_char c = (is_word c \<or> c = CHR ''.'' \<or> c = CHR ''/'' \<or> c = CHR ''-'')"

definition name_char :: "char \<Rightarrow> bool" where
  \<comment> \<open>\<open>[\w.]\<close>\<close>
  "name_char c = (is_word c \<or> c = CHR ''.'')"

definition LUA_ERROR_LOCATION :: regex where
  \<comment> \<open>\<open>^\s+(/[\w./-]+):(\d+):\<close>, \<open>re.MULTILINE\<close>\<close>
  "LUA_ERROR_LOCATION =
     [BolM, Plus (Cls is_space), Group [One (Lit CHR ''/''), Plus (Cls path_char)],
      One (Lit CHR '':''), Group [Plus (Cls is_digit)], One (Lit CHR '':'')]"

definition JAVA_LUA_ERROR_LOCATION :: regex where
  \<comment> \<open>\<open>^java.lang.IllegalStateException: (/[\w./-]+):(\d+):\<close>; its dots are not escaped\<close>
  "JAVA_LUA_ERROR_LOCATION =
     [Bol] @ lits ''java'' @ [One Dot] @ lits ''lang'' @ [One Dot] @
     lits ''IllegalStateException: '' @
     [Group [One (Lit CHR ''/''), Plus (Cls path_char)],
      One (Lit CHR '':''), Group [Plus (Cls is_digit)], One (Lit CHR '':'')]"

definition JAVA_ERROR_LOCATION :: regex where
  \<comment> \<open>\<open>^\tat ([\w.]+)\.[\w]+\([\w.]+:(\d+)\)$\<close>, \<open>re.MULTILINE\<close>\<close>
  "JAVA_ERROR_LOCATION =
     [BolM, One (Lit (CHR 0x09))] @ lits ''at '' @
     [Group [Plus (Cls name_char)], One (Lit CHR ''.''), Plus (Cls is_word),
      One (Lit CHR ''(''), Plus (Cls name_char), One (Lit CHR '':''),
      Group [Plus (Cls is_digit)], One (Lit CHR '')''), EolM]"

definition ERROR_MESSAGE :: regex where
  \<comment> \<open>\<open>(.*)\nstack traceback:\<close>, \<open>re.DOTALL\<close>\<close>
  "ERROR_MESSAGE = [Group [Star DotAll], One (Lit newline)] @ lits ''stack traceback:''"

definition SPACES :: regex where
  \<comment> \<open>\<open>\s+\<close>\<close>
  "SPACES = [Plus (Cls is_space)]"

text \<open>
  \<open>pattern.findall\<close> and \<open>pattern.sub\<close> go through the matches from left to right, each
  search starting where the last match ended. After an empty match the functions below
  step over one character (Python would look for a longer match at the same place
  first); the two patterns they are used with, \<open>JAVA_ERROR_LOCATION\<close> and \<open>SPACES\<close>,
  cannot match the empty string, so that branch is never taken.
\<close>

function findall_from :: "regex \<Rightarrow> char option \<Rightarrow> string \<Rightarrow> mstate list" where
  "findall_from re p s =
     (case search_from re p s of
        None \<Rightarrow> []
      | Some (p', s', gs) \<Rightarrow>
          (p', s', gs) #
          (if length s' < length s then findall_from re p' s'
           else (case s of [] \<Rightarrow> [] | c # cs \<Rightarrow> findall_from re (Some c) cs)))"
  by pat_completeness auto
termination
  by (relation "measure (\<lambda>(re, p, s). length s)") auto

function sub_from :: "regex \<Rightarrow> string \<Rightarrow> char option \<Rightarrow> string \<Rightarrow> string" where
  "sub_from re repl p s =
     (case match_at re p s of
        None \<Rightarrow> (case s of [] \<Rightarrow> [] | c # cs \<Rightarrow> c # sub_from re repl (Some c) cs)
      | Some (p', s', gs) \<Rightarrow>
          if length s' < length s then repl @ sub_from re repl p' s'
          else repl @ (case s of [] \<Rightarrow> [] | c # cs \<Rightarrow> c # sub_from re repl (Some c) cs))"
  by pat_completeness auto
termination
  by (relation "measure (\<lambda>(re, repl, p, s). length s)") auto

definition re_findall :: "regex \<Rightarrow> string \<Rightarrow> mstate list" where
  \<comment> \<open>\<open>pattern.findall(string)\<close>: the groups of every match, in the order of the text\<close>
  "re_findall re s = findall_from re None s"

definition re_sub :: "regex \<Rightarrow> string \<Rightarrow> string \<Rightarrow> string" where
  \<comment> \<open>\<open>pattern.sub(repl, string)\<close>, for a replacement without backslashes\<close>
  "re_sub re repl s = sub_from re repl None s"

subsection \<open>The environment\<close>

text \<open>
  A parsed XML element, as \<open>xml.etree.ElementTree\<close> gives it: the tag, the attribute
  dictionary, the text before the first child (\<open>None\<close> when there is none) and the
  children, in document order.
\<close>

datatype element =
  Element (tag: string) (attrib: "string \<rightharpoonup> string") (text_body: "string option")
    (children: "element list")

text \<open>
  What the script asks of the operating system and of the XML library:
  \<open>os.path.exists\<close>; the names in a directory, in the order the platform lists them
  (\<open>None\<close> for a path that is no directory); \<open>ET.parse(path).getroot()\<close>; and
  \<open>os.path.relpath\<close>, which depends on the working directory.
\<close>

record env =
  path_exists :: "string \<Rightarrow> bool"
  scandir :: "string \<Rightarrow> string list option"
  ET_parse :: "string \<Rightarrow> pyerror + element"
  relpath :: "string \<Rightarrow> pyerror + string"

subsection \<open>Source locations\<close>

definition SOURCE_LOCATIONS :: "string list" where
  "SOURCE_LOCATIONS =
     [''src/main/java'',
      ''src/main/resources/data/computercraft/lua'',
      ''src/test/java'',
      ''src/test/resources'']"

definition PROJECT_LOCATIONS :: "string list" where
  "PROJECT_LOCATIONS =
     [''projects/core-api'',
      ''projects/core'',
      ''projects/common-api'',
      ''projects/common'',
      ''projects/forge-api'',
      ''projects/forge'']"

fun join2 :: "string \<Rightarrow> string \<Rightarrow> string" where
  \<comment> \<open>one step of \<open>posixpath.join\<close>: an absolute component replaces what came before\<close>
  "join2 path b =
     (if b \<noteq> [] \<and> hd b = CHR ''/'' then b
      else if path = [] \<or> last path = CHR ''/'' then path @ b
      else path @ ''/'' @ b)"

definition os_path_join :: "string \<Rightarrow> string list \<Rightarrow> string" where
  \<comment> \<open>\<open>os.path.join(a, *p)\<close> on a POSIX system\<close>
  "os_path_join a p = foldl join2 a p"

fun strip_slashes :: "string \<Rightarrow> string" where
  \<comment> \<open>\<open>while len(path) > 0 and path[0] == "/": path = path[1:]\<close>\<close>
  "strip_slashes [] = []"
| "strip_slashes (c # cs) = (if c = CHR ''/'' then strip_slashes cs else c # cs)"

fun source_loop :: "env \<Rightarrow> string \<Rightarrow> string \<Rightarrow> string list \<Rightarrow> string option" where
  \<comment> \<open>the inner loop of \<open>find_file\<close>, over the source directories still to try\<close>
  "source_loop fs project path [] = None"
| "source_loop fs project path (source_dir # rest) =
     (let child_path = os_path_join project [source_dir, path]
      in if path_exists fs child_path then Some child_path
         else source_loop fs project path rest)"

fun project_loop :: "env \<Rightarrow> string \<Rightarrow> string list \<Rightarrow> string option" where
  \<comment> \<open>the outer loop of \<open>find_file\<close>, over the projects still to try\<close>
  "project_loop fs path [] = None"
| "project_loop fs path (project # rest) =
     (case source_loop fs project path SOURCE_LOCATIONS of
        Some child_path \<Rightarrow> Some child_path
      | None \<Rightarrow> project_loop fs path rest)"

definition find_file :: "env \<Rightarrow> string \<Rightarrow> string option" where
  "find_file fs path = project_loop fs (strip_slashes path) PROJECT_LOCATIONS"

definition replace_dots :: "string \<Rightarrow> string" where
  \<comment> \<open>\<open>s.replace(".", "/")\<close>\<close>
  "replace_dots s = map (\<lambda>c. if c = CHR ''.'' then CHR ''/'' else c) s"

fun java_loop :: "env \<Rightarrow> mstate list \<Rightarrow> (string \<times> string) option" where
  \<comment> \<open>the loop of \<open>find_location\<close> over the Java frames still to try\<close>
  "java_loop fs [] = None"
| "java_loop fs (location # rest) =
     (case find_file fs (replace_dots (group location 1) @ ''.java'') of
        Some file \<Rightarrow> Some (file, group location 2)
      | None \<Rightarrow> java_loop fs rest)"

definition try_location :: "env \<Rightarrow> mstate option \<Rightarrow> (string \<times> string) option" where
  \<comment> \<open>\<open>if location: file = find_file(location[1]); if file: return file, location[2]\<close>;
      \<open>None\<close> is falling through to the next statement\<close>
  "try_location fs location =
     (case location of
        None \<Rightarrow> None
      | Some m \<Rightarrow> (case find_file fs (group m 1) of
                    None \<Rightarrow> None
                  | Some file \<Rightarrow> Some (file, group m 2)))"

definition find_location :: "env \<Rightarrow> string option \<Rightarrow> pyerror + (string \<times> string) option" where
  \<comment> \<open>the first search raises \<open>TypeError\<close> on \<open>None\<close>; a path \<open>find_file\<close> returns is
      never the empty string, so \<open>if file\<close> tests for \<open>None\<close>\<close>
  "find_location fs message =
     (case message of
        None \<Rightarrow> Inl TypeError
      | Some text \<Rightarrow>
          Inr (case try_location fs (re_search LUA_ERROR_LOCATION text) of
                 Some r \<Rightarrow> Some r
               | None \<Rightarrow>
                   (case try_location fs (re_search JAVA_LUA_ERROR_LOCATION text) of
                      Some r \<Rightarrow> Some r
                    | None \<Rightarrow> java_loop fs (re_findall JAVA_ERROR_LOCATION text))))"

subsection \<open>Printing\<close>

text \<open>
  What a part of the script did: the arguments of its \<open>print\<close> calls, in order, and the
  exception that ended it, if one did. An exception is never caught, so it ends
  everything around it as well.
\<close>

type_synonym outcome = "string list \<times> pyerror option"

definition print :: "string \<Rightarrow> outcome" where
  "print line = ([line], None)"

definition raise :: "pyerror \<Rightarrow> outcome" where
  "raise e = ([], Some e)"

fun and_then :: "outcome \<Rightarrow> outcome \<Rightarrow> outcome" where
  \<comment> \<open>one statement after another\<close>
  "and_then (out, Some e) next = (out, Some e)"
| "and_then (out, None) (out', r) = (out @ out', r)"

fun for_each :: "('a \<Rightarrow> outcome) \<Rightarrow> 'a list \<Rightarrow> outcome" where
  \<comment> \<open>\<open>for x in xs: body(x)\<close>\<close>
  "for_each body [] = ([], None)"
| "for_each body (x # xs) = and_then (body x) (for_each body xs)"

definition py_str :: "string option \<Rightarrow> string" where
  \<comment> \<open>how \<open>print\<close> shows an \<open>Optional[str]\<close>\<close>
  "py_str v = (case v of None \<Rightarrow> ''None'' | Some s \<Rightarrow> s)"

subsection \<open>JUnit reports\<close>

definition error_summary :: "string option \<Rightarrow> pyerror + string" where
  \<comment> \<open>\<open>error = ERROR_MESSAGE.match(message)\<close> and the \<open>if\<close> after it; \<open>match\<close> raises
      \<open>TypeError\<close> on \<open>None\<close>\<close>
  "error_summary message =
     (case message of
        None \<Rightarrow> Inl TypeError
      | Some text \<Rightarrow>
          Inr (case re_match ERROR_MESSAGE text of
                 Some error \<Rightarrow> group error 1
               | None \<Rightarrow> text))"

definition headline :: "(string \<times> string) option \<Rightarrow> string \<Rightarrow> string \<Rightarrow> string" where
  \<comment> \<open>the argument of the first \<open>print\<close> for a failure\<close>
  "headline location name error =
     (case location of
        Some (file, line) \<Rightarrow>
          ''## '' @ file @ '':'' @ line @ '': '' @ name @ '' failed: '' @ re_sub SPACES '' '' error
      | None \<Rightarrow> ''::error::'' @ name @ '' failed'')"

definition junit_result :: "env \<Rightarrow> element \<Rightarrow> element \<Rightarrow> outcome" where
  \<comment> \<open>the body of \<open>for result in testcase\<close>\<close>
  "junit_result fs testcase result =
     (if tag result \<noteq> ''failure'' then ([], None)
      else case attrib testcase ''classname'' of
        None \<Rightarrow> raise (KeyError ''classname'')
      | Some classname \<Rightarrow>
      (case attrib testcase ''name'' of
        None \<Rightarrow> raise (KeyError ''name'')
      | Some test_name \<Rightarrow>
      (let name = classname @ ''.'' @ test_name;
           message = attrib result ''message''
       in case find_location fs (text_body result) of
        Inl e \<Rightarrow> raise e
      | Inr location \<Rightarrow>
      (case error_summary message of
        Inl e \<Rightarrow> raise e
      | Inr error \<Rightarrow>
          and_then (print (headline location name error))
         (and_then (print ''::group::Full error message'')
         (and_then (print (py_str (text_body result)))
                   (print ''::endgroup'')))))))"

definition junit_testcase :: "env \<Rightarrow> element \<Rightarrow> outcome" where
  \<comment> \<open>the body of \<open>for testcase in ET.parse(path).getroot()\<close>\<close>
  "junit_testcase fs testcase =
     (if tag testcase \<noteq> ''testcase'' then ([], None)
      else for_each (junit_result fs testcase) (children testcase))"

definition parse_junit_file :: "env \<Rightarrow> string \<Rightarrow> outcome" where
  \<comment> \<open>\<open>_parse_junit_file\<close>\<close>
  "parse_junit_file fs path =
     (case ET_parse fs path of
        Inl e \<Rightarrow> raise e
      | Inr root \<Rightarrow> for_each (junit_testcase fs) (children root))"

definition TEST_GLOB :: regex where
  \<comment> \<open>what \<open>pathlib\<close> compiles \<open>TEST-*.xml\<close> to: \<open>(?s:TEST\-.*\.xml)\Z\<close>\<close>
  "TEST_GLOB = lits ''TEST-'' @ [Star DotAll] @ lits ''.xml'' @ [Eos]"

definition glob :: "env \<Rightarrow> string \<Rightarrow> regex \<Rightarrow> string list" where
  \<comment> \<open>\<open>pathlib.Path(dir).glob(pattern)\<close> for a pattern of one component without
      \<open>**\<close>: the entries of \<open>dir\<close> itself whose name matches, none when \<open>dir\<close> is no
      directory\<close>
  "glob fs dir pattern =
     (case scandir fs dir of
        None \<Rightarrow> []
      | Some names \<Rightarrow>
          map (\<lambda>name. dir @ ''/'' @ name) (filter (\<lambda>name. re_match pattern name \<noteq> None) names))"

definition junit_reports :: "env \<Rightarrow> string \<Rightarrow> string list" where
  \<comment> \<open>the paths the inner loop of \<open>parse_junit\<close> runs over\<close>
  "junit_reports fs project = glob fs (os_path_join project [''build/test-results/test'']) TEST_GLOB"

definition parse_junit :: "env \<Rightarrow> outcome" where
  "parse_junit fs =
     and_then (print ''::add-matcher::.github/matchers/junit.json'')
    (and_then (for_each (\<lambda>project. for_each (parse_junit_file fs) (junit_reports fs project))
                 PROJECT_LOCATIONS)
              (print ''::remove-matcher owner=junit::''))"

subsection \<open>Checkstyle reports\<close>

definition checkstyle_error :: "env \<Rightarrow> element \<Rightarrow> element \<Rightarrow> outcome" where
  \<comment> \<open>the body of \<open>for error in file\<close>; \<open>attrib.get("column", 1)\<close> never raises\<close>
  "checkstyle_error fs file error =
     (case attrib file ''name'' of
        None \<Rightarrow> raise (KeyError ''name'')
      | Some file_name \<Rightarrow>
      (case relpath fs file_name of
        Inl e \<Rightarrow> raise e
      | Inr filename \<Rightarrow>
      (case attrib error ''severity'' of
        None \<Rightarrow> raise (KeyError ''severity'')
      | Some severity \<Rightarrow>
      (case attrib error ''line'' of
        None \<Rightarrow> raise (KeyError ''line'')
      | Some line \<Rightarrow>
      (case attrib error ''message'' of
        None \<Rightarrow> raise (KeyError ''message'')
      | Some message \<Rightarrow>
          print (severity @ '' '' @ filename @ '':'' @ line @ '':'' @
                 (case attrib error ''column'' of None \<Rightarrow> ''1'' | Some column \<Rightarrow> column) @
                 '': '' @ re_sub SPACES '' '' message))))))"

definition parse_checkstyle_file :: "env \<Rightarrow> string \<Rightarrow> outcome" where
  \<comment> \<open>\<open>_parse_checkstyle\<close>\<close>
  "parse_checkstyle_file fs path =
     (case ET_parse fs path of
        Inl e \<Rightarrow> raise e
      | Inr root \<Rightarrow> for_each (\<lambda>file. for_each (checkstyle_error fs file) (children file)) (children root))"

text \<open>
  \<open>parse_checkstyle\<close> hands \<open>pathlib.Path\<close> a directory with a trailing slash;
  \<open>pathlib\<close> keeps the components that are neither empty nor \<open>.\<close>, so the slash
  goes before the directory is listed.
\<close>

fun split_sep :: "string \<Rightarrow> string list" where
  \<comment> \<open>\<open>s.split("/")\<close>\<close>
  "split_sep [] = [[]]"
| "split_sep (c # cs) =
     (if c = CHR ''/'' then [] # split_sep cs
      else (case split_sep cs of [] \<Rightarrow> [[c]] | x # xs \<Rightarrow> (c # x) # xs))"

fun join_sep :: "string list \<Rightarrow> string" where
  \<comment> \<open>\<open>"/".join(parts)\<close>\<close>
  "join_sep [] = []"
| "join_sep [x] = x"
| "join_sep (x # y # ys) = x @ ''/'' @ join_sep (y # ys)"

definition path_root :: "string \<Rightarrow> string" where
  \<comment> \<open>the root \<open>splitroot\<close> finds: \<open>//\<close> for exactly two leading slashes, else \<open>/\<close> or none\<close>
  "path_root s =
     (if take 2 s = ''//'' \<and> take 3 s \<noteq> ''///'' then ''//''
      else if take 1 s = ''/'' then ''/''
      else [])"

definition pathlib_Path :: "string \<Rightarrow> string" where
  \<comment> \<open>\<open>str(pathlib.Path(s))\<close> on a POSIX system: empty and \<open>.\<close> components go, and
      with them a trailing slash\<close>
  "pathlib_Path s =
     (let parts = filter (\<lambda>x. x \<noteq> [] \<and> x \<noteq> ''.'') (split_sep s);
          str = path_root s @ join_sep parts
      in if str = [] then ''.'' else str)"

definition XML_GLOB :: regex where
  \<comment> \<open>what \<open>pathlib\<close> compiles \<open>*.xml\<close> to: \<open>(?s:.*\.xml)\Z\<close>\<close>
  "XML_GLOB = [Star DotAll] @ lits ''.xml'' @ [Eos]"

definition checkstyle_reports :: "env \<Rightarrow> string \<Rightarrow> string list" where
  \<comment> \<open>the paths the inner loop of \<open>parse_checkstyle\<close> runs over\<close>
  "checkstyle_reports fs project =
     glob fs (pathlib_Path (os_path_join project [''build/reports/checkstyle/''])) XML_GLOB"

definition parse_checkstyle :: "env \<Rightarrow> outcome" where
  "parse_checkstyle fs =
     and_then (print ''::add-matcher::.github/matchers/checkstyle.json'')
    (and_then (for_each (\<lambda>project. for_each (parse_checkstyle_file fs) (checkstyle_reports fs project))
                 PROJECT_LOCATIONS)
              (print ''::remove-matcher owner=checkstyle::''))"

subsection \<open>Specification-side functions\<close>

text \<open>
  The least number of characters a pattern consumes, and the number of its groups.
\<close>

fun min_len_node :: "node \<Rightarrow> nat" and min_len :: "node list \<Rightarrow> nat" where
  "min_len_node (One a) = 1"
| "min_len_node (Star a) = 0"
| "min_len_node (Plus a) = 1"
| "min_len_node Bol = 0"
| "min_len_node BolM = 0"
| "min_len_node EolM = 0"
| "min_len_node Eos = 0"
| "min_len_node (Group ns) = min_len ns"
| "min_len [] = 0"
| "min_len (n # ns) = min_len_node n + min_len ns"

fun group_count_node :: "node \<Rightarrow> nat" and group_count :: "node list \<Rightarrow> nat" where
  "group_count_node (Group ns) = Suc (group_count ns)"
| "group_count_node n = 0"
| "group_count [] = 0"
| "group_count (n # ns) = group_count_node n + group_count ns"

text \<open>
  Whitespace collapsed as the specification words it: each maximal run of whitespace
  becomes one space, every other character stays.
\<close>

function collapse_ws :: "string \<Rightarrow> string" where
  "collapse_ws [] = []"
| "collapse_ws (c # cs) =
     (if is_space c then CHR '' '' # collapse_ws (dropWhile is_space cs)
      else c # collapse_ws cs)"
  by pat_completeness auto
termination
  by (relation "measure length") (auto simp: le_imp_less_Suc length_dropWhile_le)

text \<open>
  The text before the last occurrence of a marker, if the marker occurs at all.
\<close>

fun before_last :: "string \<Rightarrow> string \<Rightarrow> string option" where
  "before_last marker [] = (if marker = [] then Some [] else None)"
| "before_last marker (c # cs) =
     (case before_last marker cs of
        Some pre \<Rightarrow> Some (c # pre)
      | None \<Rightarrow> if prefix marker (c # cs) then Some [] else None)"

text \<open>
  The failure records of a JUnit report, as the specification words them: for every
  \<open>testcase\<close> child of the root, every \<open>failure\<close> child of that test case. And the
  issues of a Checkstyle report: for every child of the root, every child of it.
\<close>

definition failure_records :: "element \<Rightarrow> (element \<times> element) list" where
  "failure_records root =
     [(testcase, result).
        testcase \<leftarrow> children root, tag testcase = ''testcase'',
        result \<leftarrow> children testcase, tag result = ''failure'']"

definition checkstyle_errors :: "element \<Rightarrow> (element \<times> element) list" where
  "checkstyle_errors root = [(file, error). file \<leftarrow> children root, error \<leftarrow> children file]"

subsection \<open>Example reports\<close>

text \<open>
  A small environment: the source files that exist, the directories with the names in
  them, and the reports with their parsed roots. Its reports name files relative to
  the working directory, so \<open>os.path.relpath\<close> returns a name as it is.
\<close>

definition files_env :: "string list \<Rightarrow> (string \<times> string list) list \<Rightarrow> (string \<times> element) list \<Rightarrow> env" where
  "files_env paths dirs reports =
     \<lparr>path_exists = (\<lambda>p. p \<in> set paths \<or> p \<in> set (map fst dirs) \<or> p \<in> set (map fst reports)),
      scandir = map_of dirs,
      ET_parse = (\<lambda>p. case map_of reports p of None \<Rightarrow> Inl OSError | Some root \<Rightarrow> Inr root),
      relpath = (\<lambda>p. if p = [] then Inl ValueError else Inr p)\<rparr>"

definition test_C_t :: "element list \<Rightarrow> element" where
  "test_C_t results = Element ''testcase'' [''classname'' \<mapsto> ''C'', ''name'' \<mapsto> ''t''] None results"

definition failure_elem :: "string option \<Rightarrow> string option \<Rightarrow> element" where
  "failure_elem message body =
     Element ''failure'' (case message of None \<Rightarrow> Map.empty | Some m \<Rightarrow> [''message'' \<mapsto> m]) body []"

definition testcase_elem :: "string \<Rightarrow> string \<Rightarrow> element list \<Rightarrow> element" where
  "testcase_elem classname name results =
     Element ''testcase'' [''classname'' \<mapsto> classname, ''name'' \<mapsto> name] None results"

text \<open>
  A JUnit report with a failure whose trace resolves, a failure whose trace does not,
  and a passing test; and a Checkstyle report with two issues, one without a column.
\<close>

definition junit_example_root :: element where
  "junit_example_root =
     Element ''testsuite'' Map.empty None
       [testcase_elem ''C'' ''t''
          [failure_elem (Some ''boom \<newline>  now\<newline>stack traceback:\<newline> in f'') (Some '' /rom/a.lua:1: real'')],
        testcase_elem ''C'' ''u''
          [Element ''system-out'' Map.empty (Some ''log'') [],
           failure_elem (Some ''boom'') (Some ''no trace here'')],
        testcase_elem ''C'' ''v'' []]"

definition junit_example_env :: env where
  "junit_example_env =
     files_env [''projects/core/src/main/resources/data/computercraft/lua/rom/a.lua'']
       [(''projects/core/build/test-results/test'', [''TEST-C.xml'', ''notes.txt''])]
       [(''projects/core/build/test-results/test/TEST-C.xml'', junit_example_root)]"

definition checkstyle_example_root :: element where
  "checkstyle_example_root =
     Element ''checkstyle'' Map.empty None
       [Element ''file'' [''name'' \<mapsto> ''src/A.java''] None
          [Element ''error''
             [''severity'' \<mapsto> ''error'', ''line'' \<mapsto> ''3'', ''message'' \<mapsto> ''bad  thing''] None [],
           Element ''error''
             [''severity'' \<mapsto> ''warning'', ''line'' \<mapsto> ''4'', ''column'' \<mapsto> ''07'',
              ''message'' \<mapsto> ''worse''] None []],
        Element ''file'' [''name'' \<mapsto> ''src/B.java''] None []]"

definition checkstyle_example_env :: env where
  "checkstyle_example_env =
     files_env []
       [(''projects/core/build/reports/checkstyle'', [''main.xml'', ''main.html''])]
       [(''projects/core/build/reports/checkstyle/main.xml'', checkstyle_example_root)]"

declare findall_from.simps [simp del] sub_from.simps [simp del]

section \<open>Properties of the matcher\<close>

lemma star_reaches:
  "star a k p s gs = Some r \<Longrightarrow> \<exists>p' s'. k (p', s', gs) = Some r \<and> length s' \<le> length s"
proof (induction s arbitrary: p)
  case Nil
  then show ?case by auto
next
  case (Cons c cs)
  show ?case
  proof (cases "atom_ok a c \<and> star a k (Some c) cs gs \<noteq> None")
    case True
    then have "star a k (Some c) cs gs = Some r" using Cons.prems by auto
    from Cons.IH [OF this] show ?thesis by (auto intro: le_SucI)
  next
    case False
    then have "k (p, c # cs, gs) = Some r" using Cons.prems by (auto split: if_splits option.splits)
    then show ?thesis by (intro exI [of _ p] exI [of _ "c # cs"]) simp
  qed
qed

lemma match_reaches:
  "m_node n st k = Some r \<Longrightarrow>
     \<exists>p' s' gs'. k (p', s', snd (snd st) @ gs') = Some r \<and>
        length s' + min_len_node n \<le> length (fst (snd st)) \<and> length gs' = group_count_node n"
  "m_seq ns st k = Some r \<Longrightarrow>
     \<exists>p' s' gs'. k (p', s', snd (snd st) @ gs') = Some r \<and>
        length s' + min_len ns \<le> length (fst (snd st)) \<and> length gs' = group_count ns"
proof (induction n st k and ns st k arbitrary: r and r rule: m_node_m_seq.induct)
  case (1 a p s gs k)
  then show ?case by (auto split: list.splits if_splits)
next
  case (2 a p s gs k)
  then show ?case using star_reaches [of a k p s gs r] by auto
next
  case (3 a p s gs k)
  then show ?case
  proof (cases s)
    case Nil
    with 3 show ?thesis by simp
  next
    case (Cons c cs)
    with 3 have "star a k (Some c) cs gs = Some r" by (auto split: if_splits)
    from star_reaches [OF this] Cons show ?thesis by auto
  qed
next
  case (4 p s gs k)
  then show ?case by (auto split: if_splits)
next
  case (5 p s gs k)
  then show ?case by (auto split: if_splits)
next
  case (6 p s gs k)
  then have "k (p, s, gs) = Some r" by (auto split: list.splits if_splits)
  then show ?case by (intro exI [of _ p] exI [of _ s] exI [of _ "[]"]) simp
next
  case (7 p s gs k)
  then show ?case by (auto split: if_splits)
next
  case (8 ns p s gs k)
  from 8(2) have "m_seq ns (p, s, gs) (\<lambda>(p', s', gs'). k (p', s', gs' @ [take (length s - length s') s])) = Some r"
    by simp
  from 8(1) [OF this] obtain p' s' gs' where
    "k (p', s', gs @ gs' @ [take (length s - length s') s]) = Some r"
    "length s' + min_len ns \<le> length s" "length gs' = group_count ns"
    by auto
  then show ?case
    by (intro exI [of _ p'] exI [of _ s'] exI [of _ "gs' @ [take (length s - length s') s]"]) simp
next
  case (9 st k)
  then show ?case by (cases st) auto
next
  case (10 n ns st k)
  from "10.prems" have "m_node n st (\<lambda>st'. m_seq ns st' k) = Some r" by simp
  from "10.IH"(2) [OF this] obtain p' s' gs' where
    a: "m_seq ns (p', s', snd (snd st) @ gs') k = Some r"
    and b: "length s' + min_len_node n \<le> length (fst (snd st))" "length gs' = group_count_node n"
    by blast
  from "10.IH"(1) [OF a] obtain p'' s'' gs'' where
    c: "k (p'', s'', (snd (snd st) @ gs') @ gs'') = Some r"
    and d: "length s'' + min_len ns \<le> length s'" "length gs'' = group_count ns"
    by auto
  show ?case
    apply (rule exI [of _ p''], rule exI [of _ s''], rule exI [of _ "gs' @ gs''"])
    using b c d by simp
qed

lemma match_at_reaches:
  assumes "match_at re p s = Some (p', s', gs)"
  shows "length s' + min_len re \<le> length s" and "length gs = group_count re"
  using match_reaches(2) [of re "(p, s, [])" Some "(p', s', gs)"] assms
  by (auto simp: match_at_def)

lemma search_from_reaches:
  assumes "search_from re p s = Some (p', s', gs)"
  shows "length s' + min_len re \<le> length s \<and> length gs = group_count re"
  using assms
proof (induction s arbitrary: p)
  case Nil
  then show ?case using match_at_reaches [of re p "[]" p' s' gs] by simp
next
  case (Cons c cs)
  show ?case
  proof (cases "match_at re p (c # cs)")
    case None
    with Cons.prems have "search_from re (Some c) cs = Some (p', s', gs)" by simp
    from Cons.IH [OF this] show ?thesis by simp
  next
    case (Some m)
    with Cons.prems have "match_at re p (c # cs) = Some (p', s', gs)" by simp
    then show ?thesis using match_at_reaches [of re p "c # cs" p' s' gs] by simp
  qed
qed

lemma star_always:
  "star a Some p s gs =
     Some (if takeWhile (atom_ok a) s = [] then p else Some (last (takeWhile (atom_ok a) s)),
           dropWhile (atom_ok a) s, gs)"
  by (induction s arbitrary: p) auto

lemma match_at_SPACES:
  "match_at SPACES p s =
     (case s of [] \<Rightarrow> None
      | c # cs \<Rightarrow> if is_space c
          then Some (if takeWhile is_space cs = [] then Some c else Some (last (takeWhile is_space cs)),
                     dropWhile is_space cs, [])
          else None)"
proof -
  have ok: "atom_ok (Cls is_space) = is_space" by (rule ext) simp
  show ?thesis
    by (simp add: match_at_def SPACES_def star_always ok split: list.splits)
qed

lemma lits_match:
  "m_seq (lits w @ ns) (p, s, gs) k =
     (if prefix w s
      then m_seq ns (if w = [] then p else Some (last w), drop (length w) s, gs) k
      else None)"
proof (induction w arbitrary: p s)
  case Nil
  show ?case by (simp add: lits_def)
next
  case (Cons a w)
  have step: "m_seq (lits (a # w) @ ns) (p, s, gs) k =
        (case s of [] \<Rightarrow> None | c # cs \<Rightarrow> if c = a then m_seq (lits w @ ns) (Some c, cs, gs) k else None)"
    by (simp add: lits_def split: list.splits)
  show ?case
    unfolding step by (cases s) (auto simp: Cons.IH)
qed

lemma before_last_split:
  "before_last marker s = Some pre \<Longrightarrow> \<exists>post. s = pre @ marker @ post"
proof (induction s arbitrary: pre)
  case Nil
  then show ?case by (auto split: if_splits)
next
  case (Cons c cs)
  then show ?case by (auto split: option.splits if_splits simp: prefix_def)
qed

lemma before_last_None:
  "before_last marker s = None \<Longrightarrow> s \<noteq> pre @ marker @ post"
proof (induction s arbitrary: pre)
  case Nil
  then show ?case by (auto split: if_splits)
next
  case (Cons c cs)
  from Cons.prems have none: "before_last marker cs = None" and np: "\<not> prefix marker (c # cs)"
    by (auto split: option.splits if_splits)
  show ?case
  proof (cases pre)
    case Nil
    with np show ?thesis by (auto simp: prefix_def)
  next
    case (Cons d pre')
    with Cons.IH [OF none, of pre'] show ?thesis by auto
  qed
qed

lemma before_last_longest:
  "before_last marker s = Some pre \<Longrightarrow> s = pre' @ marker @ post' \<Longrightarrow> length pre' \<le> length pre"
proof (induction s arbitrary: pre pre')
  case Nil
  then show ?case by (auto split: if_splits)
next
  case (Cons c cs)
  show ?case
  proof (cases pre')
    case Nil
    then show ?thesis by simp
  next
    case pre': (Cons d pre'')
    with Cons.prems(2) have cs: "cs = pre'' @ marker @ post'" by simp
    show ?thesis
    proof (cases "before_last marker cs")
      case None
      with before_last_None [OF None, of pre'' post'] cs show ?thesis by simp
    next
      case (Some q)
      with Cons.prems(1) have "pre = c # q" by simp
      with Cons.IH [OF Some cs] pre' show ?thesis by simp
    qed
  qed
qed

lemma findall_from_None: "search_from re p s = None \<Longrightarrow> findall_from re p s = []"
  by (subst findall_from.simps) simp

lemma findall_from_step:
  "search_from re p s = Some (p', s', gs) \<Longrightarrow> length s' < length s \<Longrightarrow>
     findall_from re p s = (p', s', gs) # findall_from re p' s'"
  by (subst findall_from.simps) simp

lemma findall_from_empty_match:
  "search_from re p s = Some (p', s', gs) \<Longrightarrow> \<not> length s' < length s \<Longrightarrow>
     findall_from re p s =
       (p', s', gs) # (case s of [] \<Rightarrow> [] | c # cs \<Rightarrow> findall_from re (Some c) cs)"
  by (subst findall_from.simps) simp

lemma findall_reaches:
  "m \<in> set (findall_from re p s) \<Longrightarrow> length (snd (snd m)) = group_count re"
proof (induction re p s rule: findall_from.induct)
  case (1 re p s)
  show ?case
  proof (cases "search_from re p s")
    case None
    with "1.prems" show ?thesis by (simp only: findall_from_None) simp
  next
    case (Some st)
    obtain p' s' gs where st: "st = (p', s', gs)" by (cases st)
    with Some have found: "search_from re p s = Some (p', s', gs)" by simp
    from search_from_reaches [OF found]
    have here: "length gs = group_count re" by simp
    show ?thesis
    proof (cases "length s' < length s")
      case True
      from "1.prems" have "m \<in> set ((p', s', gs) # findall_from re p' s')"
        by (simp only: findall_from_step [OF found True])
      moreover have "m \<in> set (findall_from re p' s') \<Longrightarrow> ?thesis"
        by (rule "1.IH"(1) [OF Some st [symmetric] refl True])
      ultimately show ?thesis using here by auto
    next
      case False
      from "1.prems"
      have "m \<in> set ((p', s', gs) # (case s of [] \<Rightarrow> [] | c # cs \<Rightarrow> findall_from re (Some c) cs))"
        by (simp only: findall_from_empty_match [OF found False])
      moreover have "s = c # cs \<Longrightarrow> m \<in> set (findall_from re (Some c) cs) \<Longrightarrow> ?thesis" for c cs
        by (rule "1.IH"(2) [OF Some st [symmetric] refl False])
      ultimately show ?thesis using here by (cases s) auto
    qed
  qed
qed

lemma group_counts:
  "group_count LUA_ERROR_LOCATION = 2" "group_count JAVA_LUA_ERROR_LOCATION = 2"
  "group_count JAVA_ERROR_LOCATION = 2" "group_count ERROR_MESSAGE = 1"
  by (simp_all add: LUA_ERROR_LOCATION_def JAVA_LUA_ERROR_LOCATION_def JAVA_ERROR_LOCATION_def
      ERROR_MESSAGE_def lits_def)

lemma min_lens:
  "0 < min_len JAVA_ERROR_LOCATION" "0 < min_len SPACES"
  by (simp_all add: JAVA_ERROR_LOCATION_def SPACES_def lits_def)

text \<open>
  A match of the script's patterns has the groups \<open>group\<close> is asked for, and a match
  of the two patterns used with \<open>findall\<close> and \<open>sub\<close> is never empty.
\<close>

lemma pattern_groups:
  "re_search LUA_ERROR_LOCATION subject = Some (p, s, gs) \<Longrightarrow> length gs = 2"
  "re_search JAVA_LUA_ERROR_LOCATION subject = Some (p, s, gs) \<Longrightarrow> length gs = 2"
  "re_match ERROR_MESSAGE subject = Some (p, s, gs) \<Longrightarrow> length gs = 1"
  "(p, s, gs) \<in> set (re_findall JAVA_ERROR_LOCATION subject) \<Longrightarrow> length gs = 2"
  using search_from_reaches [of LUA_ERROR_LOCATION None subject p s gs]
    search_from_reaches [of JAVA_LUA_ERROR_LOCATION None subject p s gs]
    match_at_reaches(2) [of ERROR_MESSAGE None subject p s gs]
    findall_reaches [of "(p, s, gs)" JAVA_ERROR_LOCATION None subject]
  by (simp_all add: re_search_def re_match_def re_findall_def group_counts)

lemma match_never_empty:
  "search_from JAVA_ERROR_LOCATION p s = Some (p', s', gs) \<Longrightarrow> length s' < length s"
  "match_at SPACES p s = Some (p', s', gs) \<Longrightarrow> length s' < length s"
  using search_from_reaches [of JAVA_ERROR_LOCATION p s p' s' gs]
    match_at_reaches(1) [of SPACES p s p' s' gs] min_lens
  by auto

lemma sub_SPACES_collapse: "sub_from SPACES '' '' p s = collapse_ws s"
proof (induction s arbitrary: p rule: collapse_ws.induct)
  case 1
  show ?case by (subst sub_from.simps) (simp add: match_at_SPACES)
next
  case (2 c cs)
  show ?case
  proof (cases "is_space c")
    case True
    have "length (dropWhile is_space cs) < length (c # cs)"
      by (simp add: le_imp_less_Suc length_dropWhile_le)
    with True 2(1) show ?thesis
      by (subst sub_from.simps) (simp add: match_at_SPACES)
  next
    case False
    with 2(2) show ?thesis
      by (subst sub_from.simps) (simp add: match_at_SPACES)
  qed
qed

lemma star_DotAll_before_last:
  assumes "\<And>p' s'. k (p', s', gs) = (if prefix marker s' then Some (f s') else None)"
  shows "star DotAll k p s gs =
           (case before_last marker s of None \<Rightarrow> None | Some pre \<Rightarrow> Some (f (drop (length pre) s)))"
proof (induction s arbitrary: p)
  case Nil
  show ?case by (simp add: assms)
next
  case (Cons c cs)
  show ?case by (simp add: Cons.IH assms split: option.splits)
qed

lemma ERROR_MESSAGE_lits: "ERROR_MESSAGE = Group [Star DotAll] # lits ''\<newline>stack traceback:'' @ []"
  by (simp add: ERROR_MESSAGE_def lits_def newline_def)

lemma match_ERROR_MESSAGE:
  "re_match ERROR_MESSAGE message =
     (case before_last ''\<newline>stack traceback:'' message of
        None \<Rightarrow> None
      | Some pre \<Rightarrow> Some (Some CHR '':'', drop (length pre + 17) message, [pre]))"
proof -
  let ?M = "''\<newline>stack traceback:''"
  let ?f = "\<lambda>s'. (Some CHR '':'', drop 17 s', [take (length message - length s') message])"
  let ?k = "\<lambda>(p', s', gs'). m_seq (lits ?M @ []) (p', s', gs' @ [take (length message - length s') message]) Some"
  have k: "\<And>p' s'. ?k (p', s', []) = (if prefix ?M s' then Some (?f s') else None)"
    by (simp only: lits_match prod.case) (simp add: eval_nat_numeral)
  have "re_match ERROR_MESSAGE message = star DotAll ?k None message []"
    unfolding re_match_def match_at_def ERROR_MESSAGE_lits by simp
  also have "\<dots> = (case before_last ?M message of None \<Rightarrow> None
                    | Some pre \<Rightarrow> Some (?f (drop (length pre) message)))"
    by (rule star_DotAll_before_last [of ?k "[]" ?M ?f, OF k])
  also have "\<dots> = (case before_last ?M message of None \<Rightarrow> None
                    | Some pre \<Rightarrow> Some (Some CHR '':'', drop (length pre + 17) message, [pre]))"
  proof (cases "before_last ?M message")
    case None
    then show ?thesis by simp
  next
    case (Some pre)
    from before_last_split [OF Some] obtain post where "message = pre @ ?M @ post" by blast
    then show ?thesis using Some by (simp add: add.commute)
  qed
  finally show ?thesis .
qed

lemma error_summary_before_last:
  "error_summary (Some message) =
     Inr (case before_last ''\<newline>stack traceback:'' message of None \<Rightarrow> message | Some pre \<Rightarrow> pre)"
  by (simp add: error_summary_def match_ERROR_MESSAGE group_def split: option.splits)

lemma sublist_before_last: "sublist marker s \<longleftrightarrow> before_last marker s \<noteq> None"
proof
  assume "sublist marker s"
  then obtain pre post where "s = pre @ marker @ post" by (auto simp: sublist_def)
  with before_last_None [of marker s pre post] show "before_last marker s \<noteq> None" by blast
next
  assume "before_last marker s \<noteq> None"
  then obtain pre where "before_last marker s = Some pre" by auto
  from before_last_split [OF this] show "sublist marker s" by (auto simp: sublist_def)
qed

lemma error_summary_spec:
  "\<exists>error. error_summary (Some message) = Inr error \<and>
     (if sublist ''\<newline>stack traceback:'' message
      then \<exists>post. message = error @ ''\<newline>stack traceback:'' @ post \<and>
             (\<forall>pre' post'. message = pre' @ ''\<newline>stack traceback:'' @ post' \<longrightarrow> length pre' \<le> length error)
      else error = message)"
proof (cases "before_last ''\<newline>stack traceback:'' message")
  case None
  then show ?thesis
    by (simp add: error_summary_before_last sublist_before_last)
next
  case (Some pre)
  from before_last_split [OF Some] obtain post where "message = pre @ ''\<newline>stack traceback:'' @ post"
    by blast
  moreover have "\<forall>pre' post'. message = pre' @ ''\<newline>stack traceback:'' @ post' \<longrightarrow> length pre' \<le> length pre"
    using before_last_longest [OF Some] by blast
  ultimately show ?thesis
    using Some by (auto simp add: error_summary_before_last sublist_before_last)
qed

section \<open>Properties of the source locator\<close>

lemma strip_slashes_dropWhile: "strip_slashes path = dropWhile (\<lambda>c. c = CHR ''/'') path"
  by (induction path) simp_all

lemma find_append_first:
  "List.find P (xs @ ys) = (case List.find P xs of Some x \<Rightarrow> Some x | None \<Rightarrow> List.find P ys)"
  by (induction xs) simp_all

lemma source_loop_find:
  "source_loop fs project path dirs =
     List.find (path_exists fs) (map (\<lambda>source_dir. os_path_join project [source_dir, path]) dirs)"
  by (induction dirs) (simp_all add: Let_def)

lemma project_loop_find:
  "project_loop fs path projects =
     List.find (path_exists fs)
       (concat (map (\<lambda>project. map (\<lambda>source_dir. os_path_join project [source_dir, path])
                                   SOURCE_LOCATIONS) projects))"
  by (induction projects) (simp_all add: find_append_first source_loop_find split: option.splits)

lemma join_relative:
  assumes "path = [] \<or> hd path \<noteq> CHR ''/''"
    and "project \<in> set PROJECT_LOCATIONS" and "source_dir \<in> set SOURCE_LOCATIONS"
  shows "os_path_join project [source_dir, path] = project @ ''/'' @ source_dir @ ''/'' @ path"
  using assms by (auto simp: os_path_join_def PROJECT_LOCATIONS_def SOURCE_LOCATIONS_def)

lemma dropWhile_slash_relative:
  "dropWhile (\<lambda>c. c = CHR ''/'') path = [] \<or> hd (dropWhile (\<lambda>c. c = CHR ''/'') path) \<noteq> CHR ''/''"
  using hd_dropWhile [of "\<lambda>c. c = CHR ''/''" path] by blast

lemma java_loop_skips:
  "java_loop fs frames =
     (case dropWhile (\<lambda>m. find_file fs (replace_dots (group m 1) @ ''.java'') = None) frames of
        [] \<Rightarrow> None
      | m # rest \<Rightarrow> map_option (\<lambda>file. (file, group m 2))
                     (find_file fs (replace_dots (group m 1) @ ''.java'')))"
  by (induction frames) (auto split: option.splits)

lemma find_file_exists: "find_file fs path = Some file \<Longrightarrow> path_exists fs file"
  by (auto simp: find_file_def project_loop_find find_Some_iff)

lemma try_location_exists: "try_location fs location = Some (file, line) \<Longrightarrow> path_exists fs file"
  by (auto simp: try_location_def find_file_exists split: option.splits)

lemma java_loop_exists: "java_loop fs frames = Some (file, line) \<Longrightarrow> path_exists fs file"
  by (induction frames) (auto simp: find_file_exists split: option.splits)

lemma find_location_exists:
  "find_location fs message = Inr (Some (file, line)) \<Longrightarrow> path_exists fs file"
  by (auto simp: find_location_def try_location_exists java_loop_exists split: option.splits)

section \<open>Properties of the scanners\<close>

lemma and_then_skip [simp]: "and_then ([], None) r = r"
  by (cases r) simp

lemma snd_and_then: "snd (and_then a b) = (case snd a of Some e \<Rightarrow> Some e | None \<Rightarrow> snd b)"
  by (cases a; cases b; cases "snd a") auto

lemma for_each_filter:
  assumes "\<And>x. x \<in> set xs \<Longrightarrow> \<not> P x \<Longrightarrow> body x = ([], None)"
  shows "for_each body (filter P xs) = for_each body xs"
  using assms by (induction xs) auto

lemma for_each_abort:
  assumes "x \<in> set xs" and "snd (body x) \<noteq> None"
  shows "snd (for_each body xs) \<noteq> None"
  using assms by (induction xs) (auto simp: snd_and_then split: option.splits)

lemma for_each_concat: "for_each body (concat xss) = for_each (for_each body) xss"
proof -
  have app: "for_each body (xs @ ys) = and_then (for_each body xs) (for_each body ys)" for xs ys
  proof (induction xs)
    case Nil
    show ?case by simp
  next
    case (Cons x xs)
    have assoc: "and_then (and_then a b) c = and_then a (and_then b c)" for a b c :: outcome
      by (cases a; cases b; cases c; cases "snd a"; cases "snd b") auto
    show ?case by (simp add: Cons.IH assoc)
  qed
  show ?thesis by (induction xss) (simp_all add: app)
qed

lemma for_each_map: "for_each body (map f xs) = for_each (\<lambda>x. body (f x)) xs"
  by (induction xs) simp_all

lemma find_location_Some: "\<exists>location. find_location fs (Some body) = Inr location"
  by (simp add: find_location_def)

lemma junit_result_printed:
  assumes "tag result = ''failure''"
    and "attrib testcase ''classname'' = Some classname"
    and "attrib testcase ''name'' = Some test_name"
    and "attrib result ''message'' = Some message"
    and "text_body result = Some body"
    and "find_location fs (Some body) = Inr location"
    and "error_summary (Some message) = Inr error"
  shows "junit_result fs testcase result =
           ([headline location (classname @ ''.'' @ test_name) error,
             ''::group::Full error message'', body, ''::endgroup''], None)"
  using assms by (simp add: junit_result_def print_def py_str_def)

lemma junit_result_raises:
  assumes "tag result = ''failure''"
    and "attrib result ''message'' = None \<or> text_body result = None"
  shows "junit_result fs testcase result \<in>
           {([], Some (KeyError ''classname'')), ([], Some (KeyError ''name'')), ([], Some TypeError)}"
proof (cases "text_body result")
  case None
  then show ?thesis using assms(1)
    by (simp add: junit_result_def raise_def find_location_def split: option.splits)
next
  case (Some body)
  with assms(2) have "attrib result ''message'' = None" by simp
  with Some assms(1) show ?thesis
    by (simp add: junit_result_def raise_def find_location_def error_summary_def split: option.splits)
qed

lemma parse_junit_aborts:
  assumes "project \<in> set PROJECT_LOCATIONS"
    and "path \<in> set (junit_reports fs project)"
    and "ET_parse fs path = Inr root"
    and "testcase \<in> set (children root)"
    and "tag testcase = ''testcase''"
    and "result \<in> set (children testcase)"
    and "snd (junit_result fs testcase result) \<noteq> None"
  shows "snd (parse_junit fs) \<noteq> None"
proof -
  have "snd (junit_testcase fs testcase) \<noteq> None"
    using assms(5-7) by (simp add: junit_testcase_def for_each_abort)
  then have "snd (parse_junit_file fs path) \<noteq> None"
    using assms(3,4) by (simp add: parse_junit_file_def for_each_abort)
  then have "snd (for_each (parse_junit_file fs) (junit_reports fs project)) \<noteq> None"
    using assms(2) by (rule for_each_abort [rotated])
  then have "snd (for_each (\<lambda>project. for_each (parse_junit_file fs) (junit_reports fs project))
                    PROJECT_LOCATIONS) \<noteq> None"
    using for_each_abort [OF assms(1), of "\<lambda>project. for_each (parse_junit_file fs) (junit_reports fs project)"]
    by simp
  then show ?thesis
    by (auto simp: parse_junit_def snd_and_then print_def split: option.splits)
qed

lemma star_DotAll_some_suffix:
  assumes "\<And>p' s'. (k (p', s', gs) \<noteq> None) = Q s'"
  shows "(star DotAll k p s gs \<noteq> None) = (\<exists>s'. suffix s' s \<and> Q s')"
proof (induction s arbitrary: p)
  case Nil
  show ?case using assms [of p "[]"] by simp
next
  case (Cons c cs)
  have "(star DotAll k p (c # cs) gs \<noteq> None) =
          (star DotAll k (Some c) cs gs \<noteq> None \<or> k (p, c # cs, gs) \<noteq> None)"
    by (simp split: option.splits)
  also have "\<dots> = ((\<exists>s'. suffix s' cs \<and> Q s') \<or> Q (c # cs))"
    by (simp only: Cons.IH assms)
  also have "\<dots> = (\<exists>s'. suffix s' (c # cs) \<and> Q s')"
    by (auto simp: suffix_Cons)
  finally show ?case .
qed

lemma TEST_GLOB_lits: "TEST_GLOB = lits ''TEST-'' @ (Star DotAll # lits ''.xml'' @ [Eos])"
  by (simp add: TEST_GLOB_def)

lemma match_TEST_GLOB:
  "(re_match TEST_GLOB name \<noteq> None) = (\<exists>mid. name = ''TEST-'' @ mid @ ''.xml'')"
proof -
  let ?k = "\<lambda>st'. m_seq (lits ''.xml'' @ [Eos]) st' Some"
  have k: "\<And>p' s'. (?k (p', s', []) \<noteq> None) = (s' = ''.xml'')"
    by (simp only: lits_match) (auto simp: prefix_def)
  have "(re_match TEST_GLOB name \<noteq> None) =
          (prefix ''TEST-'' name \<and> star DotAll ?k (Some CHR ''-'') (drop 5 name) [] \<noteq> None)"
    unfolding re_match_def match_at_def TEST_GLOB_lits
    by (simp only: lits_match) (simp add: eval_nat_numeral)
  also have "\<dots> = (prefix ''TEST-'' name \<and> suffix ''.xml'' (drop 5 name))"
    by (simp only: star_DotAll_some_suffix [of ?k "[]" "\<lambda>s'. s' = ''.xml''", OF k]) simp
  also have "\<dots> = (\<exists>mid. name = ''TEST-'' @ mid @ ''.xml'')"
  proof
    assume a: "prefix ''TEST-'' name \<and> suffix ''.xml'' (drop 5 name)"
    then obtain rest where r: "name = ''TEST-'' @ rest" by (auto simp: prefix_def)
    with a obtain mid where "rest = mid @ ''.xml''" by (auto simp: suffix_def)
    with r show "\<exists>mid. name = ''TEST-'' @ mid @ ''.xml''" by blast
  next
    assume "\<exists>mid. name = ''TEST-'' @ mid @ ''.xml''"
    then show "prefix ''TEST-'' name \<and> suffix ''.xml'' (drop 5 name)"
      by (auto simp: suffix_def)
  qed
  finally show ?thesis .
qed

lemma junit_dir:
  assumes "project \<in> set PROJECT_LOCATIONS"
  shows "os_path_join project [''build/test-results/test''] = project @ ''/build/test-results/test''"
  using assms by (auto simp: os_path_join_def PROJECT_LOCATIONS_def)

lemma junit_reports_direct:
  assumes "project \<in> set PROJECT_LOCATIONS"
  shows "junit_reports fs project =
     [project @ ''/build/test-results/test/'' @ name.
        name \<leftarrow> (case scandir fs (project @ ''/build/test-results/test'') of None \<Rightarrow> [] | Some names \<Rightarrow> names),
        \<exists>mid. name = ''TEST-'' @ mid @ ''.xml'']"
proof -
  have comp: "[f x. x \<leftarrow> xs, P x] = map f (filter P xs)" for f :: "string \<Rightarrow> string" and xs P
    by (induction xs) simp_all
  show ?thesis
    unfolding junit_reports_def glob_def junit_dir [OF assms] match_TEST_GLOB comp
    by (simp split: option.splits)
qed

lemma checkstyle_error_printed:
  assumes "attrib file ''name'' = Some file_name"
    and "relpath fs file_name = Inr filename"
    and "attrib error ''severity'' = Some severity"
    and "attrib error ''line'' = Some line"
    and "attrib error ''message'' = Some message"
  shows "checkstyle_error fs file error =
           ([severity @ '' '' @ filename @ '':'' @ line @ '':'' @
             (case attrib error ''column'' of None \<Rightarrow> ''1'' | Some column \<Rightarrow> column) @
             '': '' @ collapse_ws message], None)"
  using assms by (simp add: checkstyle_error_def print_def re_sub_def sub_SPACES_collapse)

text \<open>
  A scan over reports that all parse is the loop over their records.
\<close>

lemma for_each_same:
  "map body xs = map body' ys \<Longrightarrow> for_each body xs = for_each body' ys"
proof (induction xs arbitrary: ys)
  case Nil
  then show ?case by simp
next
  case (Cons x xs)
  then obtain y ys' where "ys = y # ys'" by (cases ys) auto
  with Cons show ?case by auto
qed

lemma for_each_printed: "for_each (\<lambda>x. (lines x, None)) xs = (concat (map lines xs), None)"
  by (induction xs) simp_all

lemma map_eq_parallel:
  assumes "map a xs = map b ys"
    and "\<And>x y. x \<in> set xs \<Longrightarrow> a x = b y \<Longrightarrow> f x = g y"
  shows "map f xs = map g ys"
  using assms
proof (induction xs arbitrary: ys)
  case Nil
  then show ?case by simp
next
  case (Cons x xs)
  then obtain y ys' where ys: "ys = y # ys'" by (cases ys) auto
  with Cons.prems(1) have "a x = b y" and "map a xs = map b ys'" by simp_all
  with Cons.IH [of ys'] Cons.prems(2) ys show ?case by simp
qed

lemma for_each_filter_tag:
  "for_each (junit_testcase fs) (children root) =
     for_each (\<lambda>testcase. for_each (junit_result fs testcase)
                  (filter (\<lambda>result. tag result = ''failure'') (children testcase)))
       (filter (\<lambda>testcase. tag testcase = ''testcase'') (children root))"
proof -
  have r: "for_each (junit_result fs testcase) (filter (\<lambda>result. tag result = ''failure'') rs)
      = for_each (junit_result fs testcase) rs" for testcase rs
    by (rule for_each_filter) (simp add: junit_result_def)
  have t: "for_each (junit_testcase fs) (filter (\<lambda>testcase. tag testcase = ''testcase'') ts)
      = for_each (junit_testcase fs) ts" for ts
    by (rule for_each_filter) (simp add: junit_testcase_def)
  have "for_each (junit_testcase fs) (filter (\<lambda>testcase. tag testcase = ''testcase'') ts) =
      for_each (\<lambda>testcase. for_each (junit_result fs testcase)
                  (filter (\<lambda>result. tag result = ''failure'') (children testcase)))
       (filter (\<lambda>testcase. tag testcase = ''testcase'') ts)" for ts
    by (rule for_each_same) (simp add: junit_testcase_def r)
  with t [of "children root"] show ?thesis by simp
qed

lemma junit_root_records:
  "for_each (junit_testcase fs) (children root) =
     for_each (\<lambda>(testcase, result). junit_result fs testcase result) (failure_records root)"
proof -
  have inner: "for_each (\<lambda>(testcase, result). junit_result fs testcase result)
        (map (Pair testcase) rs) = for_each (junit_result fs testcase) rs" for testcase rs
    by (simp add: for_each_map)
  have pairs: "concat (map (\<lambda>result. if tag result = ''failure'' then [(testcase, result)] else []) rs)
      = map (Pair testcase) (filter (\<lambda>result. tag result = ''failure'') rs)" for testcase rs
    by (induction rs) simp_all
  have cases: "concat (map (\<lambda>testcase. if tag testcase = ''testcase'' then h testcase else []) ts)
      = concat (map h (filter (\<lambda>testcase. tag testcase = ''testcase'') ts))"
    for h :: "element \<Rightarrow> (element \<times> element) list" and ts
    by (induction ts) simp_all
  have rec: "failure_records root =
      concat (map (\<lambda>testcase. map (Pair testcase)
                     (filter (\<lambda>result. tag result = ''failure'') (children testcase)))
                (filter (\<lambda>testcase. tag testcase = ''testcase'') (children root)))"
    unfolding failure_records_def by (simp only: pairs cases)
  show ?thesis
    by (simp only: rec for_each_concat for_each_map for_each_filter_tag) simp
qed

lemma junit_scan_parsed:
  assumes "map (ET_parse fs) paths = map Inr roots"
  shows "for_each (parse_junit_file fs) paths =
           for_each (\<lambda>root. for_each (junit_testcase fs) (children root)) roots"
  by (rule for_each_same, rule map_eq_parallel [OF assms]) (simp add: parse_junit_file_def)

lemma checkstyle_scan_parsed:
  assumes "map (ET_parse fs) paths = map Inr roots"
  shows "for_each (parse_checkstyle_file fs) paths =
           for_each (\<lambda>root. for_each (\<lambda>file. for_each (checkstyle_error fs file) (children file))
                                 (children root)) roots"
  by (rule for_each_same, rule map_eq_parallel [OF assms]) (simp add: parse_checkstyle_file_def)

lemma and_then_printed:
  "and_then (print opening) (and_then (lines, None) (print closing)) =
     ([opening] @ lines @ [closing], None)"
  by (simp add: print_def)

lemma junit_reports_all:
  "for_each (\<lambda>project. for_each (parse_junit_file fs) (junit_reports fs project)) PROJECT_LOCATIONS
     = for_each (parse_junit_file fs) (concat (map (junit_reports fs) PROJECT_LOCATIONS))"
  by (simp only: for_each_concat for_each_map)

lemma checkstyle_reports_all:
  "for_each (\<lambda>project. for_each (parse_checkstyle_file fs) (checkstyle_reports fs project))
       PROJECT_LOCATIONS
     = for_each (parse_checkstyle_file fs) (concat (map (checkstyle_reports fs) PROJECT_LOCATIONS))"
  by (simp only: for_each_concat for_each_map)

lemma checkstyle_root_errors:
  "for_each (\<lambda>file. for_each (checkstyle_error fs file) (children file)) (children root) =
     for_each (\<lambda>(file, error). checkstyle_error fs file error) (checkstyle_errors root)"
proof -
  have rec: "checkstyle_errors root =
      concat (map (\<lambda>file. map (Pair file) (children file)) (children root))"
    by (simp add: checkstyle_errors_def)
  show ?thesis
    by (simp only: rec for_each_concat for_each_map) simp
qed

lemma junit_dir_normal:
  assumes "project \<in> set PROJECT_LOCATIONS"
  shows "pathlib_Path (os_path_join project [''build/test-results/test'']) =
           os_path_join project [''build/test-results/test'']"
  using assms by (auto simp: PROJECT_LOCATIONS_def) code_simp+

section \<open>The claims\<close>

text \<open>
  Claim C1, as stated, fails: the summary is not taken from the text body. This failure's
  body ends with the traceback marker, and the line printed for it carries the
  \<open>message\<close> attribute all the same.
\<close>

theorem summary_ignores_text_body:
  "text_body (failure_elem (Some ''boom'') (Some '' /rom/a.lua:1: real\<newline>stack traceback:''))
     = Some ('' /rom/a.lua:1: real'' @ ''\<newline>stack traceback:'') \<and>
   junit_result
     (files_env [''projects/core/src/main/resources/data/computercraft/lua/rom/a.lua''] [] [])
     (test_C_t [])
     (failure_elem (Some ''boom'') (Some '' /rom/a.lua:1: real\<newline>stack traceback:''))
   = ([''## projects/core/src/main/resources/data/computercraft/lua/rom/a.lua:1: C.t failed: boom'',
       ''::group::Full error message'',
       '' /rom/a.lua:1: real\<newline>stack traceback:'',
       ''::endgroup''], None)"
  by code_simp

text \<open>
  Claim C1, as amended: the summary of a failure is determined from its \<open>message\<close>
  attribute. If the attribute contains \<open>\nstack traceback:\<close>, the summary is the
  attribute's text before the last occurrence of that marker, wherever the marker
  stands; otherwise it is the whole attribute. When a location was resolved, the
  printed line ends with the summary, its runs of whitespace collapsed to single
  spaces.
\<close>

theorem summary_from_message_attribute:
  assumes "tag result = ''failure''"
    and "attrib testcase ''classname'' = Some classname"
    and "attrib testcase ''name'' = Some test_name"
    and "attrib result ''message'' = Some message"
    and "find_location fs (text_body result) = Inr (Some (file, line))"
  shows "\<exists>error.
     junit_result fs testcase result =
       ([''## '' @ file @ '':'' @ line @ '': '' @ classname @ ''.'' @ test_name @ '' failed: '' @
         collapse_ws error,
         ''::group::Full error message'', py_str (text_body result), ''::endgroup''], None) \<and>
     (if sublist ''\<newline>stack traceback:'' message
      then \<exists>post. message = error @ ''\<newline>stack traceback:'' @ post \<and>
             (\<forall>pre' post'. message = pre' @ ''\<newline>stack traceback:'' @ post' \<longrightarrow>
                length pre' \<le> length error)
      else error = message)"
proof -
  from error_summary_spec [of message] obtain error where
    e: "error_summary (Some message) = Inr error"
    and spec: "if sublist ''\<newline>stack traceback:'' message
      then \<exists>post. message = error @ ''\<newline>stack traceback:'' @ post \<and>
             (\<forall>pre' post'. message = pre' @ ''\<newline>stack traceback:'' @ post' \<longrightarrow>
                length pre' \<le> length error)
      else error = message"
    by blast
  from assms(5) obtain body where body: "text_body result = Some body"
    by (cases "text_body result") (simp_all add: find_location_def)
  have "junit_result fs testcase result =
       ([''## '' @ file @ '':'' @ line @ '': '' @ classname @ ''.'' @ test_name @ '' failed: '' @
         collapse_ws error,
         ''::group::Full error message'', py_str (text_body result), ''::endgroup''], None)"
    using junit_result_printed [OF assms(1-4) body assms(5) [unfolded body] e]
    by (simp add: headline_def body py_str_def re_sub_def sub_SPACES_collapse)
  with spec show ?thesis by blast
qed

theorem summary_from_message_attribute_witness:
  "\<exists>error.
     junit_result
       (files_env [''projects/core/src/main/resources/data/computercraft/lua/rom/a.lua''] [] [])
       (test_C_t [])
       (failure_elem (Some ''boom \<newline>  now\<newline>stack traceback:\<newline> in f'') (Some '' /rom/a.lua:1: real'')) =
       ([''## projects/core/src/main/resources/data/computercraft/lua/rom/a.lua:1: C.t failed: '' @
         collapse_ws error,
         ''::group::Full error message'', '' /rom/a.lua:1: real'', ''::endgroup''], None) \<and>
     (\<exists>post. ''boom \<newline>  now\<newline>stack traceback:\<newline> in f'' = error @ ''\<newline>stack traceback:'' @ post \<and>
             (\<forall>pre' post'. ''boom \<newline>  now\<newline>stack traceback:\<newline> in f'' = pre' @ ''\<newline>stack traceback:'' @ post' \<longrightarrow>
                length pre' \<le> length error))"
proof -
  let ?fs = "files_env [''projects/core/src/main/resources/data/computercraft/lua/rom/a.lua''] [] []"
  let ?result = "failure_elem (Some ''boom \<newline>  now\<newline>stack traceback:\<newline> in f'') (Some '' /rom/a.lua:1: real'')"
  have 1: "tag ?result = ''failure''" by code_simp
  have 2: "attrib (test_C_t []) ''classname'' = Some ''C''" by code_simp
  have 3: "attrib (test_C_t []) ''name'' = Some ''t''" by code_simp
  have 4: "attrib ?result ''message'' = Some ''boom \<newline>  now\<newline>stack traceback:\<newline> in f''" by code_simp
  have 5: "find_location ?fs (text_body ?result) =
      Inr (Some (''projects/core/src/main/resources/data/computercraft/lua/rom/a.lua'', ''1''))"
    by code_simp
  have 6: "sublist ''\<newline>stack traceback:'' ''boom \<newline>  now\<newline>stack traceback:\<newline> in f''"
    by code_simp
  have 7: "py_str (text_body ?result) = '' /rom/a.lua:1: real''" by code_simp
  from summary_from_message_attribute [OF 1 2 3 4 5] show ?thesis
    by (simp only: 6 7 if_True append.simps)
qed

text \<open>
  Claim C2, as stated, fails: the scan does not descend into subdirectories. Here the
  only report lies in \<open>projects/core/build/test-results/test/sub\<close>; it holds a failing
  test, and the scan prints nothing for it.
\<close>

theorem junit_scan_skips_subdirectories:
  "parse_junit
     (files_env []
        [(''projects/core/build/test-results/test'', [''sub'']),
         (''projects/core/build/test-results/test/sub'', [''TEST-C.xml''])]
        [(''projects/core/build/test-results/test/sub/TEST-C.xml'',
          Element ''testsuite'' Map.empty None
            [test_C_t [failure_elem (Some ''boom'') (Some ''trace'')]])])
   = ([''::add-matcher::.github/matchers/junit.json'', ''::remove-matcher owner=junit::''], None)"
  by code_simp

text \<open>
  Claim C2, as amended: for every project root, the JUnit scan processes the entries of
  the directory \<open><project>/build/test-results/test\<close> itself whose name is \<open>TEST-\<close>,
  anything, \<open>.xml\<close>, in the order the directory lists them, and no others: a file in
  a subdirectory is not discovered, and a missing directory gives no files.
\<close>

theorem junit_scan_direct_entries:
  "parse_junit fs =
     and_then (print ''::add-matcher::.github/matchers/junit.json'')
    (and_then (for_each (parse_junit_file fs)
                 [project @ ''/build/test-results/test/'' @ name.
                    project \<leftarrow> PROJECT_LOCATIONS,
                    name \<leftarrow> (case scandir fs (project @ ''/build/test-results/test'') of
                              None \<Rightarrow> [] | Some names \<Rightarrow> names),
                    \<exists>mid. name = ''TEST-'' @ mid @ ''.xml''])
              (print ''::remove-matcher owner=junit::''))"
proof -
  have "for_each (\<lambda>project. for_each (parse_junit_file fs) (junit_reports fs project)) PROJECT_LOCATIONS
      = for_each (parse_junit_file fs) (concat (map (junit_reports fs) PROJECT_LOCATIONS))"
    by (simp only: for_each_concat for_each_map)
  moreover have "map (junit_reports fs) PROJECT_LOCATIONS =
      map (\<lambda>project. [project @ ''/build/test-results/test/'' @ name.
        name \<leftarrow> (case scandir fs (project @ ''/build/test-results/test'') of None \<Rightarrow> [] | Some names \<Rightarrow> names),
        \<exists>mid. name = ''TEST-'' @ mid @ ''.xml'']) PROJECT_LOCATIONS"
    by (rule map_cong [OF refl]) (rule junit_reports_direct)
  ultimately show ?thesis
    by (simp only: parse_junit_def)
qed

text \<open>
  Claim C3, as stated, fails where it calls the result the shortest existing
  combination: with a file under the Lua resources and one under the test sources of
  the same project, \<open>find_file\<close> returns the first in declared order, which is the
  longer path.
\<close>

theorem find_file_not_shortest:
  "find_file
     (files_env [''projects/core-api/src/main/resources/data/computercraft/lua/x'',
                 ''projects/core-api/src/test/java/x''] [] [])
     ''//x''
   = Some ''projects/core-api/src/main/resources/data/computercraft/lua/x'' \<and>
   path_exists
     (files_env [''projects/core-api/src/main/resources/data/computercraft/lua/x'',
                 ''projects/core-api/src/test/java/x''] [] [])
     (os_path_join (PROJECT_LOCATIONS ! 0) [SOURCE_LOCATIONS ! 2, ''x'']) \<and>
   length (os_path_join (PROJECT_LOCATIONS ! 0) [SOURCE_LOCATIONS ! 2, ''x''])
     < length ''projects/core-api/src/main/resources/data/computercraft/lua/x''"
  by code_simp

text \<open>
  Claim C3, as amended: \<open>find_file\<close> strips all leading path separators, then goes
  through the six project roots in declared order and, within each, the four source
  roots in declared order, and returns the first combination
  \<open>project/source_root/path\<close> that exists on disk, which need not be the shortest
  one; if no combination exists it returns absent.
\<close>

theorem find_file_first_existing:
  "find_file fs path =
     List.find (path_exists fs)
       [project @ ''/'' @ source_dir @ ''/'' @ dropWhile (\<lambda>c. c = CHR ''/'') path.
          project \<leftarrow> PROJECT_LOCATIONS, source_dir \<leftarrow> SOURCE_LOCATIONS]"
proof -
  let ?p = "dropWhile (\<lambda>c. c = CHR ''/'') path"
  have joined: "map (\<lambda>project. map (\<lambda>source_dir. os_path_join project [source_dir, ?p]) SOURCE_LOCATIONS) PROJECT_LOCATIONS
      = map (\<lambda>project. map (\<lambda>source_dir. project @ ''/'' @ source_dir @ ''/'' @ ?p) SOURCE_LOCATIONS) PROJECT_LOCATIONS"
    using dropWhile_slash_relative [of path] by (auto simp: join_relative)
  have "find_file fs path =
      List.find (path_exists fs) (concat (map (\<lambda>project. map (\<lambda>source_dir. os_path_join project [source_dir, ?p]) SOURCE_LOCATIONS) PROJECT_LOCATIONS))"
    by (simp only: find_file_def project_loop_find strip_slashes_dropWhile)
  also have "\<dots> = List.find (path_exists fs) (concat (map (\<lambda>project. map (\<lambda>source_dir. project @ ''/'' @ source_dir @ ''/'' @ ?p) SOURCE_LOCATIONS) PROJECT_LOCATIONS))"
    by (simp only: joined)
  finally show ?thesis by simp
qed

text \<open>
  Claim C4, as stated, fails: between the Lua-style matcher and the Java stack frames
  stands the Java-wrapped-Lua matcher. In this text the Lua-style line names a file
  that does not resolve and the Java frame resolves, yet the result is the file of the
  first line.
\<close>

theorem java_frame_not_next_after_lua:
  "map_option (\<lambda>m. group m 1)
     (re_search LUA_ERROR_LOCATION
        (''java.lang.IllegalStateException: /rom/b.lua:2: x\<newline> /rom/a.lua:1: y\<newline>'' @ [CHR 0x09] @ ''at foo.Bar.baz(Bar.java:3)''))
     = Some ''/rom/a.lua'' \<and>
   find_file
     (files_env [''projects/core/src/main/resources/data/computercraft/lua/rom/b.lua'',
                 ''projects/core/src/main/java/foo/Bar.java''] [] [])
     ''/rom/a.lua'' = None \<and>
   java_loop
     (files_env [''projects/core/src/main/resources/data/computercraft/lua/rom/b.lua'',
                 ''projects/core/src/main/java/foo/Bar.java''] [] [])
     (re_findall JAVA_ERROR_LOCATION
        (''java.lang.IllegalStateException: /rom/b.lua:2: x\<newline> /rom/a.lua:1: y\<newline>'' @ [CHR 0x09] @ ''at foo.Bar.baz(Bar.java:3)''))
     = Some (''projects/core/src/main/java/foo/Bar.java'', ''3'') \<and>
   find_location
     (files_env [''projects/core/src/main/resources/data/computercraft/lua/rom/b.lua'',
                 ''projects/core/src/main/java/foo/Bar.java''] [] [])
     (Some (''java.lang.IllegalStateException: /rom/b.lua:2: x\<newline> /rom/a.lua:1: y\<newline>'' @ [CHR 0x09] @ ''at foo.Bar.baz(Bar.java:3)''))
     = Inr (Some (''projects/core/src/main/resources/data/computercraft/lua/rom/b.lua'', ''2''))"
  by code_simp

text \<open>
  Claim C4, as amended: for a message text with a Lua-style trace line, \<open>find_location\<close>
  returns the resolved file and the matched line of the first Lua-style match when
  that match's path resolves via \<open>find_file\<close>. When it does not resolve,
  \<open>find_location\<close> falls through: to the Java-wrapped-Lua matcher first, and, when
  that finds nothing that resolves, to the first resolvable Java frame. A file it
  returns always exists.
\<close>

theorem lua_match_first_then_fall_through:
  assumes "re_search LUA_ERROR_LOCATION text = Some m"
  shows "(find_file fs (group m 1) = Some file \<longrightarrow>
            find_location fs (Some text) = Inr (Some (file, group m 2))) \<and>
         (find_file fs (group m 1) = None \<longrightarrow>
            find_location fs (Some text) =
              Inr (case (case re_search JAVA_LUA_ERROR_LOCATION text of
                           None \<Rightarrow> None
                         | Some wrapped \<Rightarrow>
                             map_option (\<lambda>file. (file, group wrapped 2))
                               (find_file fs (group wrapped 1))) of
                     Some r \<Rightarrow> Some r
                   | None \<Rightarrow>
                       (case dropWhile
                               (\<lambda>frame. find_file fs (replace_dots (group frame 1) @ ''.java'') = None)
                               (re_findall JAVA_ERROR_LOCATION text) of
                          [] \<Rightarrow> None
                        | frame # rest \<Rightarrow>
                            map_option (\<lambda>file. (file, group frame 2))
                              (find_file fs (replace_dots (group frame 1) @ ''.java''))))) \<and>
         (find_location fs (Some text) = Inr (Some (file', line')) \<longrightarrow> path_exists fs file')"
proof -
  have wrapped: "try_location fs location =
      (case location of None \<Rightarrow> None
       | Some wrapped \<Rightarrow> map_option (\<lambda>file. (file, group wrapped 2)) (find_file fs (group wrapped 1)))"
    for location
    by (simp add: try_location_def split: option.splits)
  show ?thesis
    using assms find_location_exists [of fs "Some text" file' line']
    unfolding find_location_def wrapped java_loop_skips
    by simp
qed

theorem lua_match_first_then_fall_through_witness:
  "find_location
     (files_env [''projects/core/src/main/resources/data/computercraft/lua/rom/a.lua'',
                 ''projects/core/src/main/resources/data/computercraft/lua/rom/b.lua'',
                 ''projects/core/src/main/java/foo/Bar.java'',
                 ''projects/core/src/main/java/foo/Qux.java''] [] [])
     (Some (''java.lang.IllegalStateException: /rom/b.lua:2: x\<newline> /rom/a.lua:1: y\<newline>'' @
            [CHR 0x09] @ ''at org.junit.Assert.fail(Assert.java:9)\<newline>'' @
            [CHR 0x09] @ ''at foo.Bar.baz(Bar.java:3)\<newline>'' @
            [CHR 0x09] @ ''at foo.Qux.run(Qux.java:4)''))
     = Inr (Some (''projects/core/src/main/resources/data/computercraft/lua/rom/a.lua'', ''1'')) \<and>
   find_location
     (files_env [''projects/core/src/main/resources/data/computercraft/lua/rom/b.lua'',
                 ''projects/core/src/main/java/foo/Bar.java'',
                 ''projects/core/src/main/java/foo/Qux.java''] [] [])
     (Some (''java.lang.IllegalStateException: /rom/b.lua:2: x\<newline> /rom/a.lua:1: y\<newline>'' @
            [CHR 0x09] @ ''at org.junit.Assert.fail(Assert.java:9)\<newline>'' @
            [CHR 0x09] @ ''at foo.Bar.baz(Bar.java:3)\<newline>'' @
            [CHR 0x09] @ ''at foo.Qux.run(Qux.java:4)''))
     = Inr (Some (''projects/core/src/main/resources/data/computercraft/lua/rom/b.lua'', ''2'')) \<and>
   find_location
     (files_env [''projects/core/src/main/java/foo/Bar.java'',
                 ''projects/core/src/main/java/foo/Qux.java''] [] [])
     (Some (''java.lang.IllegalStateException: /rom/b.lua:2: x\<newline> /rom/a.lua:1: y\<newline>'' @
            [CHR 0x09] @ ''at org.junit.Assert.fail(Assert.java:9)\<newline>'' @
            [CHR 0x09] @ ''at foo.Bar.baz(Bar.java:3)\<newline>'' @
            [CHR 0x09] @ ''at foo.Qux.run(Qux.java:4)''))
     = Inr (Some (''projects/core/src/main/java/foo/Bar.java'', ''3'')) \<and>
   path_exists
     (files_env [''projects/core/src/main/java/foo/Bar.java'',
                 ''projects/core/src/main/java/foo/Qux.java''] [] [])
     ''projects/core/src/main/java/foo/Bar.java''"
proof -
  let ?text = "''java.lang.IllegalStateException: /rom/b.lua:2: x\<newline> /rom/a.lua:1: y\<newline>'' @
            [CHR 0x09] @ ''at org.junit.Assert.fail(Assert.java:9)\<newline>'' @
            [CHR 0x09] @ ''at foo.Bar.baz(Bar.java:3)\<newline>'' @
            [CHR 0x09] @ ''at foo.Qux.run(Qux.java:4)''"
  let ?m = "(Some CHR '':'',
             '' y\<newline>'' @ [CHR 0x09] @ ''at org.junit.Assert.fail(Assert.java:9)\<newline>'' @
             [CHR 0x09] @ ''at foo.Bar.baz(Bar.java:3)\<newline>'' @
             [CHR 0x09] @ ''at foo.Qux.run(Qux.java:4)'',
             [''/rom/a.lua'', ''1''])"
  let ?all = "files_env [''projects/core/src/main/resources/data/computercraft/lua/rom/a.lua'',
                 ''projects/core/src/main/resources/data/computercraft/lua/rom/b.lua'',
                 ''projects/core/src/main/java/foo/Bar.java'',
                 ''projects/core/src/main/java/foo/Qux.java''] [] []"
  let ?wrapped = "files_env [''projects/core/src/main/resources/data/computercraft/lua/rom/b.lua'',
                 ''projects/core/src/main/java/foo/Bar.java'',
                 ''projects/core/src/main/java/foo/Qux.java''] [] []"
  let ?java = "files_env [''projects/core/src/main/java/foo/Bar.java'',
                 ''projects/core/src/main/java/foo/Qux.java''] [] []"
  let ?a = "''projects/core/src/main/resources/data/computercraft/lua/rom/a.lua''"
  let ?b = "''projects/core/src/main/resources/data/computercraft/lua/rom/b.lua''"
  let ?bar = "''projects/core/src/main/java/foo/Bar.java''"
  have found: "re_search LUA_ERROR_LOCATION ?text = Some ?m" by code_simp
  have g1: "group ?m 1 = ''/rom/a.lua''" and g2: "group ?m 2 = ''1''" by code_simp+
  have yes: "find_file ?all ''/rom/a.lua'' = Some ?a" by code_simp
  have no_w: "find_file ?wrapped ''/rom/a.lua'' = None" by code_simp
  have no_j: "find_file ?java ''/rom/a.lua'' = None" by code_simp
  have rest_w: "(case (case re_search JAVA_LUA_ERROR_LOCATION ?text of
                           None \<Rightarrow> None
                         | Some wrapped \<Rightarrow>
                             map_option (\<lambda>file. (file, group wrapped 2))
                               (find_file ?wrapped (group wrapped 1))) of
                     Some r \<Rightarrow> Some r
                   | None \<Rightarrow>
                       (case dropWhile
                               (\<lambda>frame. find_file ?wrapped (replace_dots (group frame 1) @ ''.java'') = None)
                               (re_findall JAVA_ERROR_LOCATION ?text) of
                          [] \<Rightarrow> None
                        | frame # rest \<Rightarrow>
                            map_option (\<lambda>file. (file, group frame 2))
                              (find_file ?wrapped (replace_dots (group frame 1) @ ''.java''))))
      = Some (?b, ''2'')" by code_simp
  have rest_j: "(case (case re_search JAVA_LUA_ERROR_LOCATION ?text of
                           None \<Rightarrow> None
                         | Some wrapped \<Rightarrow>
                             map_option (\<lambda>file. (file, group wrapped 2))
                               (find_file ?java (group wrapped 1))) of
                     Some r \<Rightarrow> Some r
                   | None \<Rightarrow>
                       (case dropWhile
                               (\<lambda>frame. find_file ?java (replace_dots (group frame 1) @ ''.java'') = None)
                               (re_findall JAVA_ERROR_LOCATION ?text) of
                          [] \<Rightarrow> None
                        | frame # rest \<Rightarrow>
                            map_option (\<lambda>file. (file, group frame 2))
                              (find_file ?java (replace_dots (group frame 1) @ ''.java''))))
      = Some (?bar, ''3'')" by code_simp
  from lua_match_first_then_fall_through [OF found, of ?all ?a, THEN conjunct1]
  have a: "find_location ?all (Some ?text) = Inr (Some (?a, ''1''))"
    by (simp only: g1 g2 yes)
  from lua_match_first_then_fall_through [OF found, of ?wrapped, THEN conjunct2, THEN conjunct1]
  have b: "find_location ?wrapped (Some ?text) = Inr (Some (?b, ''2''))"
    by (simp only: g1 no_w rest_w)
  from lua_match_first_then_fall_through [OF found, of ?java, THEN conjunct2, THEN conjunct1]
  have c: "find_location ?java (Some ?text) = Inr (Some (?bar, ''3''))"
    by (simp only: g1 no_j rest_j)
  from lua_match_first_then_fall_through [OF found, of ?java _ ?bar "''3''", THEN conjunct2, THEN conjunct2]
  have d: "find_location ?java (Some ?text) = Inr (Some (?bar, ''3''))
      \<longrightarrow> path_exists ?java ?bar" .
  from a b c d show ?thesis by blast
qed

text \<open>
  Claim C5: when neither the Lua-style nor the Java-wrapped-Lua matcher gives a
  location that resolves, \<open>find_location\<close> takes the Java stack frames of the text in
  their order, turns each frame's qualified class name into a path (dots to
  separators, \<open>.java\<close> appended), skips the frames whose path does not resolve and
  returns the first frame whose path does, with that frame's line; if no frame
  resolves, the result is absent.
\<close>

theorem java_frames_first_resolvable:
  assumes "try_location fs (re_search LUA_ERROR_LOCATION text) = None"
    and "try_location fs (re_search JAVA_LUA_ERROR_LOCATION text) = None"
  shows "find_location fs (Some text) =
     Inr (case dropWhile (\<lambda>frame. find_file fs (replace_dots (group frame 1) @ ''.java'') = None)
                 (re_findall JAVA_ERROR_LOCATION text) of
            [] \<Rightarrow> None
          | frame # rest \<Rightarrow>
              map_option (\<lambda>file. (file, group frame 2))
                (find_file fs (replace_dots (group frame 1) @ ''.java'')))"
  using assms by (simp add: find_location_def java_loop_skips)

theorem java_frames_first_resolvable_witness:
  "map (\<lambda>frame. (group frame 1, group frame 2))
     (re_findall JAVA_ERROR_LOCATION
        (''boom\<newline>'' @ [CHR 0x09] @ ''at org.junit.Assert.fail(Assert.java:9)\<newline>'' @ [CHR 0x09] @
         ''at foo.Bar.baz(Bar.java:3)''))
     = [(''org.junit.Assert'', ''9''), (''foo.Bar'', ''3'')] \<and>
   find_location (files_env [''projects/core/src/test/java/foo/Bar.java''] [] [])
     (Some (''boom\<newline>'' @ [CHR 0x09] @ ''at org.junit.Assert.fail(Assert.java:9)\<newline>'' @ [CHR 0x09] @
            ''at foo.Bar.baz(Bar.java:3)''))
     = Inr (Some (''projects/core/src/test/java/foo/Bar.java'', ''3''))"
proof -
  let ?text = "''boom\<newline>'' @ [CHR 0x09] @ ''at org.junit.Assert.fail(Assert.java:9)\<newline>'' @ [CHR 0x09] @
         ''at foo.Bar.baz(Bar.java:3)''"
  let ?fs = "files_env [''projects/core/src/test/java/foo/Bar.java''] [] []"
  have frames: "map (\<lambda>frame. (group frame 1, group frame 2)) (re_findall JAVA_ERROR_LOCATION ?text)
     = [(''org.junit.Assert'', ''9''), (''foo.Bar'', ''3'')]" by code_simp
  have 1: "try_location ?fs (re_search LUA_ERROR_LOCATION ?text) = None" by code_simp
  have 2: "try_location ?fs (re_search JAVA_LUA_ERROR_LOCATION ?text) = None" by code_simp
  have 3: "(case dropWhile (\<lambda>frame. find_file ?fs (replace_dots (group frame 1) @ ''.java'') = None)
                 (re_findall JAVA_ERROR_LOCATION ?text) of
            [] \<Rightarrow> None
          | frame # rest \<Rightarrow>
              map_option (\<lambda>file. (file, group frame 2))
                (find_file ?fs (replace_dots (group frame 1) @ ''.java'')))
      = Some (''projects/core/src/test/java/foo/Bar.java'', ''3'')" by code_simp
  from java_frames_first_resolvable [OF 1 2] have "find_location ?fs (Some ?text) =
      Inr (Some (''projects/core/src/test/java/foo/Bar.java'', ''3''))"
    by (simp only: 3)
  with frames show ?thesis by (simp only:)
qed

text \<open>
  Claim C6: for every JUnit failure record of the reports the scan discovers (a
  \<open>failure\<close> element with a \<open>message\<close> and a text body, in a test case with
  \<open>classname\<close> and \<open>name\<close>), the scan prints exactly one headline,
  \<open>## <file>:<line>: <qualified-name> failed: <summary>\<close> when a location was resolved
  and \<open>::error::<qualified-name> failed\<close> otherwise, and after it, whether a location
  was resolved or not, the group: the start-group directive, the raw body text and the
  end-group directive. Between its two matcher directives the scan prints these four
  lines for each record, in the order of the reports, and nothing else.
\<close>

theorem junit_scan_prints_failure_records:
  assumes "map (ET_parse fs) (concat (map (junit_reports fs) PROJECT_LOCATIONS)) = map Inr roots"
    and "map (\<lambda>(testcase, result).
                (attrib testcase ''classname'', attrib testcase ''name'',
                 attrib result ''message'', text_body result))
             (concat (map failure_records roots))
         = map (\<lambda>(classname, test_name, message, body).
                  (Some classname, Some test_name, Some message, Some body))
               records"
  shows "parse_junit fs =
     ([''::add-matcher::.github/matchers/junit.json''] @
      concat (map (\<lambda>(classname, test_name, message, body).
                [case find_location fs (Some body) of
                   Inr (Some (file, line)) \<Rightarrow>
                     ''## '' @ file @ '':'' @ line @ '': '' @ classname @ ''.'' @ test_name @
                     '' failed: '' @
                     collapse_ws (case before_last ''\<newline>stack traceback:'' message of
                                    None \<Rightarrow> message | Some pre \<Rightarrow> pre)
                 | _ \<Rightarrow> ''::error::'' @ classname @ ''.'' @ test_name @ '' failed'',
                 ''::group::Full error message'',
                 body,
                 ''::endgroup''])
              records) @
      [''::remove-matcher owner=junit::''], None)"
proof -
  let ?block = "\<lambda>(classname, test_name, message, body).
                [case find_location fs (Some body) of
                   Inr (Some (file, line)) \<Rightarrow>
                     ''## '' @ file @ '':'' @ line @ '': '' @ classname @ ''.'' @ test_name @
                     '' failed: '' @
                     collapse_ws (case before_last ''\<newline>stack traceback:'' message of
                                    None \<Rightarrow> message | Some pre \<Rightarrow> pre)
                 | _ \<Rightarrow> ''::error::'' @ classname @ ''.'' @ test_name @ '' failed'',
                 ''::group::Full error message'',
                 body,
                 ''::endgroup'']"
  have one: "junit_result fs testcase result = (?block item, None)"
    if "(case (testcase, result) of (testcase, result) \<Rightarrow>
           (attrib testcase ''classname'', attrib testcase ''name'',
            attrib result ''message'', text_body result))
        = (case item of (classname, test_name, message, body) \<Rightarrow>
             (Some classname, Some test_name, Some message, Some body))"
      and "tag result = ''failure''"
    for testcase result item
  proof -
    obtain classname test_name message body where r: "item = (classname, test_name, message, body)"
      by (cases item) auto
    from that(1) r have a: "attrib testcase ''classname'' = Some classname"
      "attrib testcase ''name'' = Some test_name" "attrib result ''message'' = Some message"
      "text_body result = Some body" by simp_all
    obtain location where l: "find_location fs (Some body) = Inr location"
      using find_location_Some by blast
    from junit_result_printed [OF that(2) a l error_summary_before_last] l r show ?thesis
      by (auto simp: headline_def re_sub_def sub_SPACES_collapse split: option.splits)
  qed
  have tags: "tag result = ''failure''" if "(testcase, result) \<in> set (concat (map failure_records roots))"
    for testcase result
    using that by (auto simp: failure_records_def)
  have "for_each (parse_junit_file fs) (concat (map (junit_reports fs) PROJECT_LOCATIONS))
      = for_each (\<lambda>root. for_each (\<lambda>(testcase, result). junit_result fs testcase result)
                            (failure_records root)) roots"
    by (simp only: junit_scan_parsed [OF assms(1)] junit_root_records)
  also have "\<dots> = for_each (\<lambda>(testcase, result). junit_result fs testcase result)
                      (concat (map failure_records roots))"
    by (simp only: for_each_concat for_each_map)
  also have "\<dots> = for_each (\<lambda>item. (?block item, None)) records"
  proof (rule for_each_same)
    show "map (\<lambda>(testcase, result). junit_result fs testcase result) (concat (map failure_records roots))
        = map (\<lambda>item. (?block item, None)) records"
    proof (rule map_eq_parallel [OF assms(2)])
      fix p item
      assume mem: "p \<in> set (concat (map failure_records roots))"
        and eq: "(case p of (testcase, result) \<Rightarrow>
               (attrib testcase ''classname'', attrib testcase ''name'',
                attrib result ''message'', text_body result))
           = (case item of (classname, test_name, message, body) \<Rightarrow>
               (Some classname, Some test_name, Some message, Some body))"
      obtain testcase result where p: "p = (testcase, result)" by (cases p)
      from one [of testcase result item] eq tags [of testcase result] mem
      show "(case p of (testcase, result) \<Rightarrow> junit_result fs testcase result) = (?block item, None)"
        unfolding p by simp
    qed
  qed
  also have "\<dots> = (concat (map ?block records), None)"
    by (rule for_each_printed)
  finally show ?thesis
    by (simp only: parse_junit_def junit_reports_all and_then_printed)
qed

theorem junit_scan_prints_failure_records_witness:
  "parse_junit junit_example_env =
     ([''::add-matcher::.github/matchers/junit.json'',
       ''## projects/core/src/main/resources/data/computercraft/lua/rom/a.lua:1: C.t failed: boom now'',
       ''::group::Full error message'',
       '' /rom/a.lua:1: real'',
       ''::endgroup'',
       ''::error::C.u failed'',
       ''::group::Full error message'',
       ''no trace here'',
       ''::endgroup'',
       ''::remove-matcher owner=junit::''], None)"
proof -
  let ?records = "[(''C'', ''t'', ''boom \<newline>  now\<newline>stack traceback:\<newline> in f'', '' /rom/a.lua:1: real''),
                   (''C'', ''u'', ''boom'', ''no trace here'')]"
  have "concat (map (junit_reports junit_example_env) PROJECT_LOCATIONS)
      = [''projects/core/build/test-results/test/TEST-C.xml'']"
    by code_simp
  then have 1: "map (ET_parse junit_example_env)
        (concat (map (junit_reports junit_example_env) PROJECT_LOCATIONS))
      = map Inr [junit_example_root]"
    by (simp add: junit_example_env_def files_env_def)
  have 2: "map (\<lambda>(testcase, result).
                (attrib testcase ''classname'', attrib testcase ''name'',
                 attrib result ''message'', text_body result))
             (concat (map failure_records [junit_example_root]))
         = map (\<lambda>(classname, test_name, message, body).
                  (Some classname, Some test_name, Some message, Some body))
               ?records"
    by (simp add: failure_records_def junit_example_root_def testcase_elem_def failure_elem_def)
  have 3: "[''::add-matcher::.github/matchers/junit.json''] @
      concat (map (\<lambda>(classname, test_name, message, body).
                [case find_location junit_example_env (Some body) of
                   Inr (Some (file, line)) \<Rightarrow>
                     ''## '' @ file @ '':'' @ line @ '': '' @ classname @ ''.'' @ test_name @
                     '' failed: '' @
                     collapse_ws (case before_last ''\<newline>stack traceback:'' message of
                                    None \<Rightarrow> message | Some pre \<Rightarrow> pre)
                 | _ \<Rightarrow> ''::error::'' @ classname @ ''.'' @ test_name @ '' failed'',
                 ''::group::Full error message'',
                 body,
                 ''::endgroup''])
              ?records) @
      [''::remove-matcher owner=junit::'']
    = [''::add-matcher::.github/matchers/junit.json'',
       ''## projects/core/src/main/resources/data/computercraft/lua/rom/a.lua:1: C.t failed: boom now'',
       ''::group::Full error message'',
       '' /rom/a.lua:1: real'',
       ''::endgroup'',
       ''::error::C.u failed'',
       ''::group::Full error message'',
       ''no trace here'',
       ''::endgroup'',
       ''::remove-matcher owner=junit::'']"
    by code_simp
  from junit_scan_prints_failure_records [OF 1 2] show ?thesis
    by (simp only: 3)
qed

lemma junit_failure_unlocated_example:
  "junit_result (files_env [] [] []) (test_C_t [])
     (failure_elem (Some ''boom'') (Some ''no trace here''))
   = ([''::error::C.t failed'', ''::group::Full error message'', ''no trace here'',
       ''::endgroup''], None)"
  by code_simp

lemma junit_failure_located_example:
  "junit_result
     (files_env [''projects/core/src/main/resources/data/computercraft/lua/rom/a.lua''] [] [])
     (test_C_t [])
     (failure_elem (Some ''boom \<newline>  now\<newline>stack traceback:\<newline> in f'') (Some '' /rom/a.lua:1: real''))
   = ([''## projects/core/src/main/resources/data/computercraft/lua/rom/a.lua:1: C.t failed: boom now'',
       ''::group::Full error message'', '' /rom/a.lua:1: real'', ''::endgroup''], None)"
  by code_simp

text \<open>
  Claim C7: for every Checkstyle \<open>error\<close> element of the reports the scan discovers
  (with \<open>severity\<close>, \<open>line\<close> and \<open>message\<close>, in a \<open>file\<close> element with a \<open>name\<close>),
  the scan prints exactly one line,
  \<open><severity> <relative-path>:<line>:<column>: <message>\<close>, where the relative path is
  the file's \<open>name\<close> made relative to the working directory, the column is the
  \<open>column\<close> attribute as it is when present and \<open>1\<close> exactly when it is absent, and
  the message has its runs of whitespace collapsed. Between its two matcher directives
  the scan prints this line for each element, in the order of the reports, and nothing
  else.
\<close>

theorem checkstyle_scan_prints_error_lines:
  assumes "map (ET_parse fs) (concat (map (checkstyle_reports fs) PROJECT_LOCATIONS)) = map Inr roots"
    and "map (\<lambda>(file, error).
                (map_option (relpath fs) (attrib file ''name''), attrib error ''severity'',
                 attrib error ''line'', attrib error ''column'', attrib error ''message''))
             (concat (map checkstyle_errors roots))
         = map (\<lambda>(filename, severity, line, column, message).
                  (Some (Inr filename), Some severity, Some line, column, Some message))
               issues"
  shows "parse_checkstyle fs =
     ([''::add-matcher::.github/matchers/checkstyle.json''] @
      map (\<lambda>(filename, severity, line, column, message).
             severity @ '' '' @ filename @ '':'' @ line @ '':'' @
             (case column of None \<Rightarrow> ''1'' | Some given \<Rightarrow> given) @
             '': '' @ collapse_ws message)
          issues @
      [''::remove-matcher owner=checkstyle::''], None)"
proof -
  let ?line = "\<lambda>(filename, severity, line, column, message).
             severity @ '' '' @ filename @ '':'' @ line @ '':'' @
             (case column of None \<Rightarrow> ''1'' | Some given \<Rightarrow> given) @
             '': '' @ collapse_ws message"
  have one: "checkstyle_error fs fl er = ([?line item], None)"
    if "(case (fl, er) of (file, error) \<Rightarrow>
           (map_option (relpath fs) (attrib file ''name''), attrib error ''severity'',
            attrib error ''line'', attrib error ''column'', attrib error ''message''))
        = (case item of (filename, severity, line, column, message) \<Rightarrow>
             (Some (Inr filename), Some severity, Some line, column, Some message))"
    for fl er item
  proof -
    obtain filename severity line column message
      where r: "item = (filename, severity, line, column, message)"
      by (cases item) auto
    from that r obtain file_name where a: "attrib fl ''name'' = Some file_name"
      "relpath fs file_name = Inr filename" by auto
    from that r have b: "attrib er ''severity'' = Some severity"
      "attrib er ''line'' = Some line" "attrib er ''message'' = Some message"
      "attrib er ''column'' = column" by simp_all
    from checkstyle_error_printed [OF a b(1-3)] b(4) r show ?thesis by simp
  qed
  have "for_each (parse_checkstyle_file fs) (concat (map (checkstyle_reports fs) PROJECT_LOCATIONS))
      = for_each (\<lambda>root. for_each (\<lambda>(file, error). checkstyle_error fs file error)
                            (checkstyle_errors root)) roots"
    by (simp only: checkstyle_scan_parsed [OF assms(1)] checkstyle_root_errors)
  also have "\<dots> = for_each (\<lambda>(file, error). checkstyle_error fs file error)
                      (concat (map checkstyle_errors roots))"
    by (simp only: for_each_concat for_each_map)
  also have "\<dots> = for_each (\<lambda>item. ([?line item], None)) issues"
  proof (rule for_each_same, rule map_eq_parallel [OF assms(2)])
    fix p item
    assume eq: "(case p of (file, error) \<Rightarrow>
           (map_option (relpath fs) (attrib file ''name''), attrib error ''severity'',
            attrib error ''line'', attrib error ''column'', attrib error ''message''))
        = (case item of (filename, severity, line, column, message) \<Rightarrow>
             (Some (Inr filename), Some severity, Some line, column, Some message))"
    obtain fl er where p: "p = (fl, er)" by (cases p)
    from one [of fl er item] eq
    show "(case p of (file, error) \<Rightarrow> checkstyle_error fs file error) = ([?line item], None)"
      unfolding p by simp
  qed
  also have "\<dots> = (concat (map (\<lambda>item. [?line item]) issues), None)"
    by (rule for_each_printed)
  also have "concat (map (\<lambda>item. [?line item]) issues) = map ?line issues"
    by simp
  finally show ?thesis
    by (simp only: parse_checkstyle_def checkstyle_reports_all and_then_printed)
qed

theorem checkstyle_scan_prints_error_lines_witness:
  "parse_checkstyle checkstyle_example_env =
     ([''::add-matcher::.github/matchers/checkstyle.json'',
       ''error src/A.java:3:1: bad thing'',
       ''warning src/A.java:4:07: worse'',
       ''::remove-matcher owner=checkstyle::''], None)"
proof -
  let ?issues = "[(''src/A.java'', ''error'', ''3'', None, ''bad  thing''),
                  (''src/A.java'', ''warning'', ''4'', Some ''07'', ''worse'')]"
  have "concat (map (checkstyle_reports checkstyle_example_env) PROJECT_LOCATIONS)
      = [''projects/core/build/reports/checkstyle/main.xml'']"
    by code_simp
  then have 1: "map (ET_parse checkstyle_example_env)
        (concat (map (checkstyle_reports checkstyle_example_env) PROJECT_LOCATIONS))
      = map Inr [checkstyle_example_root]"
    by (simp add: checkstyle_example_env_def files_env_def)
  have 2: "map (\<lambda>(file, error).
                (map_option (relpath checkstyle_example_env) (attrib file ''name''),
                 attrib error ''severity'', attrib error ''line'', attrib error ''column'',
                 attrib error ''message''))
             (concat (map checkstyle_errors [checkstyle_example_root]))
         = map (\<lambda>(filename, severity, line, column, message).
                  (Some (Inr filename), Some severity, Some line, column, Some message))
               ?issues"
    by (simp add: checkstyle_errors_def checkstyle_example_root_def checkstyle_example_env_def
        files_env_def)
  have 3: "[''::add-matcher::.github/matchers/checkstyle.json''] @
      map (\<lambda>(filename, severity, line, column, message).
             severity @ '' '' @ filename @ '':'' @ line @ '':'' @
             (case column of None \<Rightarrow> ''1'' | Some given \<Rightarrow> given) @
             '': '' @ collapse_ws message)
          ?issues @
      [''::remove-matcher owner=checkstyle::'']
    = [''::add-matcher::.github/matchers/checkstyle.json'',
       ''error src/A.java:3:1: bad thing'',
       ''warning src/A.java:4:07: worse'',
       ''::remove-matcher owner=checkstyle::'']"
    by code_simp
  from checkstyle_scan_prints_error_lines [OF 1 2] show ?thesis
    by (simp only: 3)
qed

text \<open>
  Claim C8: when a JUnit report contains a \<open>failure\<close> element without the \<open>message\<close>
  attribute, processing that failure raises an exception and prints nothing for it
  (for a test case with \<open>classname\<close> and \<open>name\<close> and a failure with a body it is the
  \<open>TypeError\<close> of matching the absent message), and the exception ends the whole
  scan: it is not skipped, and no line without a summary is printed.
\<close>

theorem missing_message_aborts_scan:
  assumes "project \<in> set PROJECT_LOCATIONS"
    and "path \<in> set (junit_reports fs project)"
    and "ET_parse fs path = Inr root"
    and "testcase \<in> set (children root)"
    and "tag testcase = ''testcase''"
    and "result \<in> set (children testcase)"
    and "tag result = ''failure''"
    and "attrib result ''message'' = None"
  shows "junit_result fs testcase result \<in>
           {([], Some (KeyError ''classname'')), ([], Some (KeyError ''name'')), ([], Some TypeError)} \<and>
         (attrib testcase ''classname'' \<noteq> None \<and> attrib testcase ''name'' \<noteq> None \<longrightarrow>
            junit_result fs testcase result = ([], Some TypeError)) \<and>
         snd (parse_junit fs) \<noteq> None"
proof -
  have raised: "junit_result fs testcase result \<in>
      {([], Some (KeyError ''classname'')), ([], Some (KeyError ''name'')), ([], Some TypeError)}"
    by (rule junit_result_raises [OF assms(7)]) (simp add: assms(8))
  then have "snd (junit_result fs testcase result) \<noteq> None" by auto
  from parse_junit_aborts [OF assms(1-6) this] have "snd (parse_junit fs) \<noteq> None" .
  moreover have "attrib testcase ''classname'' \<noteq> None \<and> attrib testcase ''name'' \<noteq> None \<longrightarrow>
      junit_result fs testcase result = ([], Some TypeError)"
    using assms(7,8)
    by (auto simp: junit_result_def raise_def find_location_def error_summary_def
        split: option.splits sum.splits)
  ultimately show ?thesis using raised by blast
qed

theorem missing_message_aborts_scan_witness:
  "junit_result
     (files_env [] [(''projects/core/build/test-results/test'', [''TEST-C.xml''])]
        [(''projects/core/build/test-results/test/TEST-C.xml'',
          Element ''testsuite'' Map.empty None [test_C_t [failure_elem None (Some ''trace'')]])])
     (test_C_t [failure_elem None (Some ''trace'')]) (failure_elem None (Some ''trace''))
     = ([], Some TypeError) \<and>
   snd (parse_junit
     (files_env [] [(''projects/core/build/test-results/test'', [''TEST-C.xml''])]
        [(''projects/core/build/test-results/test/TEST-C.xml'',
          Element ''testsuite'' Map.empty None [test_C_t [failure_elem None (Some ''trace'')]])]))
     \<noteq> None"
proof -
  let ?result = "failure_elem None (Some ''trace'')"
  let ?testcase = "test_C_t [?result]"
  let ?root = "Element ''testsuite'' Map.empty None [?testcase]"
  let ?fs = "files_env [] [(''projects/core/build/test-results/test'', [''TEST-C.xml''])]
        [(''projects/core/build/test-results/test/TEST-C.xml'', ?root)]"
  have 1: "''projects/core'' \<in> set PROJECT_LOCATIONS" by (simp add: PROJECT_LOCATIONS_def)
  have "junit_reports ?fs ''projects/core'' = [''projects/core/build/test-results/test/TEST-C.xml'']"
    by code_simp
  then have 2: "''projects/core/build/test-results/test/TEST-C.xml'' \<in> set (junit_reports ?fs ''projects/core'')"
    by simp
  have 3: "ET_parse ?fs ''projects/core/build/test-results/test/TEST-C.xml'' = Inr ?root"
    by (simp add: files_env_def)
  have 4: "?testcase \<in> set (children ?root)" by simp
  have 5: "tag ?testcase = ''testcase''" by (simp add: test_C_t_def)
  have 6: "?result \<in> set (children ?testcase)" by (simp add: test_C_t_def)
  have 7: "tag ?result = ''failure''" by (simp add: failure_elem_def)
  have 8: "attrib ?result ''message'' = None" by (simp add: failure_elem_def)
  have 9: "attrib ?testcase ''classname'' \<noteq> None \<and> attrib ?testcase ''name'' \<noteq> None"
    by (simp add: test_C_t_def)
  from missing_message_aborts_scan [OF 1 2 3 4 5 6 7 8] 9 show ?thesis by blast
qed

lemma missing_message_example:
  "parse_junit
     (files_env [] [(''projects/core/build/test-results/test'', [''TEST-C.xml''])]
        [(''projects/core/build/test-results/test/TEST-C.xml'',
          Element ''testsuite'' Map.empty None [test_C_t [failure_elem None (Some ''trace'')]])])
   = ([''::add-matcher::.github/matchers/junit.json''], Some TypeError)"
  by code_simp

text \<open>
  Claim C9: a child of a JUnit root whose tag is not \<open>testcase\<close>, and a child of a
  \<open>testcase\<close> whose tag is not \<open>failure\<close> (an \<open>error\<close>, \<open>skipped\<close> or \<open>system-out\<close>
  element, say), makes the scan print nothing and raise nothing: the output of a file
  is that of its \<open>testcase\<close> elements, and the output of a test case that of its
  \<open>failure\<close> elements. A test reported as an error is ignored.
\<close>

theorem junit_ignores_other_elements:
  "(tag testcase \<noteq> ''testcase'' \<longrightarrow> junit_testcase fs testcase = ([], None)) \<and>
   (tag result \<noteq> ''failure'' \<longrightarrow> junit_result fs testcase result = ([], None)) \<and>
   for_each (junit_testcase fs) (children root) =
     for_each (junit_testcase fs) (filter (\<lambda>e. tag e = ''testcase'') (children root)) \<and>
   for_each (junit_result fs testcase) (children testcase) =
     for_each (junit_result fs testcase) (filter (\<lambda>e. tag e = ''failure'') (children testcase))"
proof -
  have t: "tag e \<noteq> ''testcase'' \<Longrightarrow> junit_testcase fs e = ([], None)" for e
    by (simp add: junit_testcase_def)
  have r: "tag e \<noteq> ''failure'' \<Longrightarrow> junit_result fs testcase e = ([], None)" for e
    by (simp add: junit_result_def)
  show ?thesis
    using t [of testcase] r [of result]
      for_each_filter [of "children root" "\<lambda>e. tag e = ''testcase''" "junit_testcase fs"]
      for_each_filter [of "children testcase" "\<lambda>e. tag e = ''failure''" "junit_result fs testcase"]
    by (simp add: t r)
qed

theorem junit_ignores_other_elements_witness:
  "junit_testcase (files_env [] [] []) (Element ''properties'' Map.empty None []) = ([], None) \<and>
   junit_result (files_env [] [] [])
     (test_C_t [Element ''error'' [''message'' \<mapsto> ''boom''] (Some ''trace'') []])
     (Element ''error'' [''message'' \<mapsto> ''boom''] (Some ''trace'') []) = ([], None) \<and>
   junit_testcase (files_env [] [] [])
     (test_C_t [Element ''error'' [''message'' \<mapsto> ''boom''] (Some ''trace'') []]) = ([], None)"
proof -
  let ?fs = "files_env [] [] []"
  let ?error = "Element ''error'' [''message'' \<mapsto> ''boom''] (Some ''trace'') []"
  let ?root = "Element ''testsuite'' Map.empty None []"
  have 1: "tag (Element ''properties'' Map.empty None []) \<noteq> ''testcase''" by simp
  have 2: "tag ?error \<noteq> ''failure''" by simp
  have 3: "filter (\<lambda>e. tag e = ''failure'') (children (test_C_t [?error])) = []"
    by (simp add: test_C_t_def)
  have 4: "tag (test_C_t [?error]) = ''testcase''" by (simp add: test_C_t_def)
  from junit_ignores_other_elements [of "Element ''properties'' Map.empty None []" ?fs ?error ?root] 1
  have a: "junit_testcase ?fs (Element ''properties'' Map.empty None []) = ([], None)" by blast
  from junit_ignores_other_elements [of "test_C_t [?error]" ?fs ?error ?root] 2
  have b: "junit_result ?fs (test_C_t [?error]) ?error = ([], None)" by blast
  from junit_ignores_other_elements [of "test_C_t [?error]" ?fs ?error ?root]
  have "for_each (junit_result ?fs (test_C_t [?error])) (children (test_C_t [?error])) = ([], None)"
    by (simp only: 3 for_each.simps)
  then have c: "junit_testcase ?fs (test_C_t [?error]) = ([], None)"
    by (simp add: junit_testcase_def 4)
  from a b c show ?thesis by blast
qed

text \<open>
  Claim C10: for a \<open>failure\<close> element without a text body (a self-closing
  \<open><failure .../>\<close>), location extraction on the missing body raises \<open>TypeError\<close>.
  Processing the failure raises before any line is printed for it (in a test case
  with \<open>classname\<close> and \<open>name\<close> the exception is that \<open>TypeError\<close>), and the
  exception ends the scan.
\<close>

theorem missing_body_aborts_scan:
  assumes "project \<in> set PROJECT_LOCATIONS"
    and "path \<in> set (junit_reports fs project)"
    and "ET_parse fs path = Inr root"
    and "testcase \<in> set (children root)"
    and "tag testcase = ''testcase''"
    and "result \<in> set (children testcase)"
    and "tag result = ''failure''"
    and "text_body result = None"
  shows "find_location fs (text_body result) = Inl TypeError \<and>
         junit_result fs testcase result \<in>
           {([], Some (KeyError ''classname'')), ([], Some (KeyError ''name'')), ([], Some TypeError)} \<and>
         (attrib testcase ''classname'' \<noteq> None \<and> attrib testcase ''name'' \<noteq> None \<longrightarrow>
            junit_result fs testcase result = ([], Some TypeError)) \<and>
         snd (parse_junit fs) \<noteq> None"
proof -
  have l: "find_location fs (text_body result) = Inl TypeError"
    using assms(8) by (simp add: find_location_def)
  have raised: "junit_result fs testcase result \<in>
      {([], Some (KeyError ''classname'')), ([], Some (KeyError ''name'')), ([], Some TypeError)}"
    by (rule junit_result_raises [OF assms(7)]) (simp add: assms(8))
  then have "snd (junit_result fs testcase result) \<noteq> None" by auto
  from parse_junit_aborts [OF assms(1-6) this] have "snd (parse_junit fs) \<noteq> None" .
  moreover have "attrib testcase ''classname'' \<noteq> None \<and> attrib testcase ''name'' \<noteq> None \<longrightarrow>
      junit_result fs testcase result = ([], Some TypeError)"
    using assms(7) l by (auto simp: junit_result_def raise_def)
  ultimately show ?thesis using l raised by blast
qed

theorem missing_body_aborts_scan_witness:
  "find_location
     (files_env [] [(''projects/core/build/test-results/test'', [''TEST-C.xml''])]
        [(''projects/core/build/test-results/test/TEST-C.xml'',
          Element ''testsuite'' Map.empty None [test_C_t [failure_elem (Some ''boom'') None]])])
     (text_body (failure_elem (Some ''boom'') None)) = Inl TypeError \<and>
   junit_result
     (files_env [] [(''projects/core/build/test-results/test'', [''TEST-C.xml''])]
        [(''projects/core/build/test-results/test/TEST-C.xml'',
          Element ''testsuite'' Map.empty None [test_C_t [failure_elem (Some ''boom'') None]])])
     (test_C_t [failure_elem (Some ''boom'') None]) (failure_elem (Some ''boom'') None)
     = ([], Some TypeError) \<and>
   snd (parse_junit
     (files_env [] [(''projects/core/build/test-results/test'', [''TEST-C.xml''])]
        [(''projects/core/build/test-results/test/TEST-C.xml'',
          Element ''testsuite'' Map.empty None [test_C_t [failure_elem (Some ''boom'') None]])]))
     \<noteq> None"
proof -
  let ?result = "failure_elem (Some ''boom'') None"
  let ?testcase = "test_C_t [?result]"
  let ?root = "Element ''testsuite'' Map.empty None [?testcase]"
  let ?fs = "files_env [] [(''projects/core/build/test-results/test'', [''TEST-C.xml''])]
        [(''projects/core/build/test-results/test/TEST-C.xml'', ?root)]"
  have 1: "''projects/core'' \<in> set PROJECT_LOCATIONS" by (simp add: PROJECT_LOCATIONS_def)
  have "junit_reports ?fs ''projects/core'' = [''projects/core/build/test-results/test/TEST-C.xml'']"
    by code_simp
  then have 2: "''projects/core/build/test-results/test/TEST-C.xml'' \<in> set (junit_reports ?fs ''projects/core'')"
    by simp
  have 3: "ET_parse ?fs ''projects/core/build/test-results/test/TEST-C.xml'' = Inr ?root"
    by (simp add: files_env_def)
  have 4: "?testcase \<in> set (children ?root)" by simp
  have 5: "tag ?testcase = ''testcase''" by (simp add: test_C_t_def)
  have 6: "?result \<in> set (children ?testcase)" by (simp add: test_C_t_def)
  have 7: "tag ?result = ''failure''" by (simp add: failure_elem_def)
  have 8: "text_body ?result = None" by (simp add: failure_elem_def)
  have 9: "attrib ?testcase ''classname'' \<noteq> None \<and> attrib ?testcase ''name'' \<noteq> None"
    by (simp add: test_C_t_def)
  from missing_body_aborts_scan [OF 1 2 3 4 5 6 7 8] 9 show ?thesis by blast
qed

lemma missing_body_example:
  "parse_junit
     (files_env [] [(''projects/core/build/test-results/test'', [''TEST-C.xml''])]
        [(''projects/core/build/test-results/test/TEST-C.xml'',
          Element ''testsuite'' Map.empty None [test_C_t [failure_elem (Some ''boom'') None]])])
   = ([''::add-matcher::.github/matchers/junit.json''], Some TypeError)"
  by code_simp

end
